theory Spec2Isabelle
  imports Complex_Main
begin

section \<open>The Farcaster interaction manager (client-farcaster/src/interactions.ts)\<close>

text \<open>
  A shallow embedding of the class \<open>FarcasterInteractionManager\<close>. The manager polls
  a feed, gathers candidate casts, and answers each of them through a generation service.
  Everything the class does besides computing is explicit here:
  \<^item> the fields it mutates (\<open>lastProcessedCasts\<close>, \<open>timeout\<close>, the client's
    \<open>lastInteractionTimestamp\<close>) and the durable message store form a record \<open>State\<close>;
  \<^item> every awaited call into another module and every log line is appended to a trace,
    so that "is never called" is a statement about that trace;
  \<^item> the answer of every awaited call comes from a record \<open>World\<close> of oracles. Each
    oracle sees the trace so far, so two calls with the same arguments may answer
    differently, and each may reject (\<open>Inl\<close>), which is a thrown exception.
\<close>

subsection \<open>Data\<close>

type_synonym uuid = string

text \<open>The prompt state built by \<open>runtime.composeState\<close>; opaque to this file.\<close>
type_synonym pstate = string

record Profile =
  profile_fid :: int
  profile_name :: string
  profile_username :: string

record ReplyRef =
  ref_hash :: string
  ref_fid :: int

text \<open>
  \<open>Cast\<close> of \<open>./types\<close>, with the fields this file reads or writes. A timestamp is
  the epoch time in milliseconds of the \<open>Date\<close>; \<open>None\<close> is an invalid date.
\<close>
record Cast =
  cast_hash :: string
  cast_authorFid :: int
  cast_text :: string
  cast_profile :: Profile
  cast_inReplyTo :: "ReplyRef option"
  cast_timestamp :: "int option"

text \<open>
  A cast as \<open>neynar.fetchCastsForUser\<close> returns it: \<open>parent_hash\<close> is \<open>null\<close> for a
  cast that is no reply, and \<open>timestamp\<close> is what \<open>new Date(cast.timestamp).getTime()\<close>
  gives (\<open>None\<close> for \<open>NaN\<close>).
\<close>
record NeynarCast =
  ncast_hash :: string
  ncast_author_fid :: int
  ncast_text :: string
  ncast_parent_hash :: "string option"
  ncast_parent_author_fid :: int
  ncast_timestamp :: "int option"

record Content =
  content_text :: string
  content_action :: "string option"
  content_inReplyTo :: "uuid option"

record Memory =
  mem_id :: "uuid option"
  mem_agentId :: uuid
  mem_userId :: uuid
  mem_roomId :: uuid
  mem_content :: Content

text \<open>One element of what \<open>sendCast\<close> resolves to: \<open>{ memory, cast }\<close>.\<close>
record Sent =
  sent_memory :: Memory
  sent_cast :: Cast

record Templates =
  farcasterShouldRespondTemplate :: "string option"
  shouldRespondTemplate :: "string option"
  farcasterMessageHandlerTemplate :: "string option"
  messageHandlerTemplate :: "string option"

record FarcasterConfig =
  FARCASTER_FID :: "int option"
  FARCASTER_POLL_INTERVAL :: "int option"
  FARCASTER_DRY_RUN :: bool
  FARCASTER_TARGET_USERS :: "string list"

datatype error = Rejected string | TypeError string | RangeError string

datatype level = Log | Info | Error

text \<open>One constructor for each logging statement of the file, with what it prints.\<close>
datatype logmsg =
    Msg_loop_error error
  | Msg_checking
  | Msg_no_fid
  | Msg_processing_target_users "string list"
  | Msg_user_not_found string
  | Msg_cast_checks string bool bool bool
  | Msg_found_valid nat string string int bool
  | Msg_no_valid_casts string
  | Msg_error_fetching string error
  | Msg_selected string string
  | Msg_updated_timestamp int
  | Msg_skip_self string
  | Msg_skip_no_text string
  | Msg_dry_run string string
  | Msg_error_sending error

datatype event =
    Logger level logmsg
  | Call_getMentions int nat
  | Call_lookupUserByUsername string int
  | Call_fetchCastsForUser int int nat bool
  | Call_getProfile int
  | Call_Math_random
  | Call_getMemoryById uuid
  | Call_createMemory Memory
  | Call_ensureConnection uuid uuid string string string
  | Call_buildConversationThread Cast
  | Call_getTimeline int nat
  | Call_composeState Memory string string string string
  | Call_generateShouldRespond string
  | Call_generateMessageResponse string
  | Call_sendCast string Profile Content uuid ReplyRef
  | Call_updateRecentMessageState pstate
  | Call_processActions Memory Cast "Memory list" pstate
  | Call_setTimeout int

text \<open>
  What stays fixed over the life of a manager: the runtime's agent id and character, the
  signer, the client's configuration, and the pure helpers imported from other modules
  (\<open>castUuid\<close> of \<open>./utils\<close>, \<open>stringToUuid\<close> and \<open>composeContext\<close> of the core,
  \<open>toHex\<close> of viem, the formatters and default templates of \<open>./prompts\<close>, the date
  formatter behind \<open>toLocaleString\<close>). None of them is in this file, so they are
  parameters: every theorem holds for whatever they compute.
\<close>
record Manager =
  agentId :: uuid
  signerUuid :: string
  farcasterConfig :: "FarcasterConfig option"
  templates :: "Templates option"
  castUuid :: "uuid \<Rightarrow> string \<Rightarrow> uuid"
  stringToUuid :: "string \<Rightarrow> uuid"
  toHex :: "string \<Rightarrow> string"
  numberToString :: "int \<Rightarrow> string"
  formatCast :: "Cast \<Rightarrow> string"
  formatTimeline :: "Cast list \<Rightarrow> string"
  toLocaleString :: "int option \<Rightarrow> string"
  composeContext :: "pstate \<Rightarrow> string \<Rightarrow> string"
  prompts_shouldRespondTemplate :: string
  prompts_messageHandlerTemplate :: string

text \<open>
  The answers of the outside world. Every field takes the trace so far first. A call that
  returns nothing answers \<open>None\<close> when it resolves and \<open>Some e\<close> when it rejects.
  \<open>Math_floor_random\<close> answers \<open>Math.floor(Math.random() * n)\<close> for the length
  \<open>n\<close> it is given: the product and the floor are taken in double arithmetic by the
  engine, which is not modelled, so the index itself comes from the world.
  \<open>Date_now\<close> is the clock.
\<close>
record World =
  getMentions :: "event list \<Rightarrow> int \<Rightarrow> nat \<Rightarrow> error + Cast list"
  lookupUserByUsername :: "event list \<Rightarrow> string \<Rightarrow> int \<Rightarrow> error + int option"
  fetchCastsForUser :: "event list \<Rightarrow> int \<Rightarrow> int \<Rightarrow> nat \<Rightarrow> bool \<Rightarrow> error + NeynarCast list"
  getProfile :: "event list \<Rightarrow> int \<Rightarrow> error + Profile"
  Math_floor_random :: "event list \<Rightarrow> nat \<Rightarrow> int"
  Date_now :: "event list \<Rightarrow> int"
  getMemoryById_rejects :: "event list \<Rightarrow> uuid \<Rightarrow> error option"
  createMemory_rejects :: "event list \<Rightarrow> Memory \<Rightarrow> error option"
  ensureConnection :: "event list \<Rightarrow> uuid \<Rightarrow> uuid \<Rightarrow> string \<Rightarrow> string \<Rightarrow> string \<Rightarrow> error option"
  buildConversationThread :: "event list \<Rightarrow> Cast \<Rightarrow> error + Cast list"
  getTimeline :: "event list \<Rightarrow> int \<Rightarrow> nat \<Rightarrow> error + Cast list"
  composeState :: "event list \<Rightarrow> Memory \<Rightarrow> string \<Rightarrow> string \<Rightarrow> string \<Rightarrow> string \<Rightarrow> error + pstate"
  generateShouldRespond :: "event list \<Rightarrow> string \<Rightarrow> error + string"
  generateMessageResponse :: "event list \<Rightarrow> string \<Rightarrow> error + Content"
  sendCast :: "event list \<Rightarrow> string \<Rightarrow> Profile \<Rightarrow> Content \<Rightarrow> uuid \<Rightarrow> ReplyRef \<Rightarrow> error + Sent list"
  updateRecentMessageState :: "event list \<Rightarrow> pstate \<Rightarrow> error + pstate"
  processActions :: "event list \<Rightarrow> Memory \<Rightarrow> Cast \<Rightarrow> Memory list \<Rightarrow> pstate \<Rightarrow> error option"

text \<open>
  The mutable state: the message manager's durable store (records in the order they were
  written), the in-process set \<open>lastProcessedCasts\<close>, the client's
  \<open>lastInteractionTimestamp\<close>, the delay in milliseconds of the pending timer
  (\<open>this.timeout\<close>), and the trace.
\<close>
record State =
  store :: "Memory list"
  lastProcessedCasts :: "string set"
  lastInteractionTimestamp :: "int option"
  timeout :: "int option"
  trace :: "event list"

subsection \<open>Sequencing, exceptions and awaited calls\<close>

type_synonym 'a action = "State \<Rightarrow> State \<times> (error + 'a)"

definition ret :: "'a \<Rightarrow> 'a action" where
  "ret x st = (st, Inr x)"

definition throw :: "error \<Rightarrow> 'a action" where
  "throw e st = (st, Inl e)"

definition bind :: "'a action \<Rightarrow> ('a \<Rightarrow> 'b action) \<Rightarrow> 'b action" where
  "bind m f st = (case m st of (st', Inl e) \<Rightarrow> (st', Inl e) | (st', Inr x) \<Rightarrow> f x st')"

definition emit :: "event \<Rightarrow> State \<Rightarrow> State" where
  "emit ev st = st\<lparr>trace := trace st @ [ev]\<rparr>"

definition logger :: "level \<Rightarrow> logmsg \<Rightarrow> unit action" where
  "logger lv msg st = (emit (Logger lv msg) st, Inr ())"

text \<open>An awaited call: it is recorded, and the world answers from the trace before it.\<close>
definition await :: "event \<Rightarrow> (event list \<Rightarrow> error + 'a) \<Rightarrow> 'a action" where
  "await ev answer st = (emit ev st, answer (trace st))"

definition void :: "error option \<Rightarrow> error + unit" where
  "void r = (case r of None \<Rightarrow> Inr () | Some e \<Rightarrow> Inl e)"

text \<open>JavaScript truthiness of an optional string: \<open>undefined\<close> and \<open>""\<close> are falsy.\<close>
definition truthy :: "string option \<Rightarrow> bool" where
  "truthy s = (case s of None \<Rightarrow> False | Some v \<Rightarrow> v \<noteq> [])"

text \<open>\<open>a || b\<close> and \<open>a ?? b\<close> on optional strings with a defined right-hand side.\<close>
definition or_else :: "string option \<Rightarrow> string \<Rightarrow> string" where
  "or_else a b = (case a of None \<Rightarrow> b | Some v \<Rightarrow> if v \<noteq> [] then v else b)"

definition nullish_else :: "string option \<Rightarrow> string \<Rightarrow> string" where
  "nullish_else a b = (case a of None \<Rightarrow> b | Some v \<Rightarrow> v)"

fun join :: "string \<Rightarrow> string list \<Rightarrow> string" where
  "join sep [] = []"
| "join sep [x] = x"
| "join sep (x # y # ys) = x @ sep @ join sep (y # ys)"

subsection \<open>The message manager\<close>

text \<open>
  \<open>runtime.messageManager\<close> is used through its contract: \<open>getMemoryById\<close> reads the
  record stored under an id, \<open>createMemory\<close> appends a record. Either call may reject.
\<close>

definition getMemoryById :: "World \<Rightarrow> uuid \<Rightarrow> Memory option action" where
  "getMemoryById W i st =
     (emit (Call_getMemoryById i) st,
      case getMemoryById_rejects W (trace st) i of
        Some e \<Rightarrow> Inl e
      | None \<Rightarrow> Inr (find (\<lambda>m. mem_id m = Some i) (store st)))"

definition createMemory :: "World \<Rightarrow> Memory \<Rightarrow> unit action" where
  "createMemory W m st =
     (case createMemory_rejects W (trace st) m of
        Some e \<Rightarrow> (emit (Call_createMemory m) st, Inl e)
      | None \<Rightarrow> (emit (Call_createMemory m) (st\<lparr>store := store st @ [m]\<rparr>), Inr ()))"

text \<open>
  Modelled from the spec: \<open>createCastMemory\<close> of \<open>./memory\<close> is not among the sources.
  The spec keys a MemoryRecord by the deterministic id \<open>hash(agentId, post.id)\<close> and lets
  it hold \<open>roomId\<close>, \<open>userId\<close>, \<open>agentId\<close> and \<open>content{text, inReplyTo?, action?}\<close>;
  \<open>handleCast\<close> agrees, creating the record only when nothing is stored under
  \<open>castUuid({agentId, hash})\<close> and using that id as the reply's \<open>inReplyTo\<close>. The
  optional content fields are left unset.
\<close>
definition createCastMemory :: "Manager \<Rightarrow> uuid \<Rightarrow> uuid \<Rightarrow> Cast \<Rightarrow> Memory" where
  "createCastMemory M roomId senderId cast =
     \<lparr>mem_id = Some (castUuid M (agentId M) (cast_hash cast)),
      mem_agentId = agentId M,
      mem_userId = senderId,
      mem_roomId = roomId,
      mem_content = \<lparr>content_text = cast_text cast, content_action = None,
                     content_inReplyTo = None\<rparr>\<rparr>"

subsection \<open>The dispatch callback (lines 355 to 390)\<close>

text \<open>The loop \<open>for (const { memory } of results) await createMemory(memory)\<close>.\<close>
fun createMemories :: "World \<Rightarrow> Memory list \<Rightarrow> unit action" where
  "createMemories W [] st = (st, Inr ())"
| "createMemories W (m # ms) st =
     (case createMemory W m st of
        (st', Inl e) \<Rightarrow> (st', Inl e)
      | (st', Inr _) \<Rightarrow> createMemories W ms st')"

text \<open>
  \<open>results[0].memory.content.action = content.action\<close>: the first element is changed in
  place; on an empty array \<open>results[0]\<close> is \<open>undefined\<close> and the access throws.
\<close>
definition restoreAction :: "Content \<Rightarrow> Sent list \<Rightarrow> error + Sent list" where
  "restoreAction content results =
     (case results of
        [] \<Rightarrow> Inl (TypeError ''Cannot read properties of undefined (reading 'memory')'')
      | r # rs \<Rightarrow>
          Inr (r\<lparr>sent_memory := (sent_memory r)\<lparr>mem_content :=
                 (mem_content (sent_memory r))\<lparr>content_action := content_action content\<rparr>\<rparr>\<rparr> # rs))"

text \<open>
  \<open>if (memoryId && !content.inReplyTo) content.inReplyTo = memoryId\<close>, and the
  reply target \<open>{ fid: cast.authorFid, hash: cast.hash }\<close> passed to \<open>sendCast\<close>.
\<close>
definition withInReplyTo :: "uuid \<Rightarrow> Content \<Rightarrow> Content" where
  "withInReplyTo memoryId content =
     (if memoryId \<noteq> [] \<and> \<not> truthy (content_inReplyTo content)
      then content\<lparr>content_inReplyTo := Some memoryId\<rparr> else content)"

definition replyTarget :: "Cast \<Rightarrow> ReplyRef" where
  "replyTarget cast = \<lparr>ref_hash = cast_hash cast, ref_fid = cast_authorFid cast\<rparr>"

text \<open>The body of the \<open>try\<close> block of the callback.\<close>
definition callback_try :: "Manager \<Rightarrow> World \<Rightarrow> Cast \<Rightarrow> Memory \<Rightarrow> uuid \<Rightarrow> Content \<Rightarrow> Memory list action" where
  "callback_try M W cast memory memoryId content0 =
     (let content = withInReplyTo memoryId content0
      in bind (await (Call_sendCast (signerUuid M) (cast_profile cast) content (mem_roomId memory)
                        (replyTarget cast))
                 (\<lambda>tr. sendCast W tr (signerUuid M) (cast_profile cast) content (mem_roomId memory)
                        (replyTarget cast)))
           (\<lambda>results st.
              let st1 = st\<lparr>lastProcessedCasts := insert (cast_hash cast) (lastProcessedCasts st)\<rparr>
              in case restoreAction content results of
                   Inl e \<Rightarrow> (st1, Inl e)
                 | Inr results' \<Rightarrow>
                     bind (createMemories W (map sent_memory results'))
                       (\<lambda>_. ret (map sent_memory results')) st1))"

text \<open>The callback: whatever the \<open>try\<close> block throws is logged, and \<open>[]\<close> is returned.\<close>
definition callback :: "Manager \<Rightarrow> World \<Rightarrow> Cast \<Rightarrow> Memory \<Rightarrow> uuid \<Rightarrow> Content \<Rightarrow> State \<Rightarrow> State \<times> Memory list" where
  "callback M W cast memory memoryId content st =
     (case callback_try M W cast memory memoryId content st of
        (st', Inr ms) \<Rightarrow> (st', ms)
      | (st', Inl e) \<Rightarrow> (emit (Logger Error (Msg_error_sending e)) st', []))"

subsection \<open>handleCast (lines 229 to 402)\<close>

text \<open>
  \<open>thread.map(...).join("\n\n")\<close>: one entry per cast of the thread, the handle, the
  formatted date, a line break, sixteen blanks (the template literal's indentation) and
  the text.
\<close>
definition formattedConversation :: "Manager \<Rightarrow> Cast list \<Rightarrow> string" where
  "formattedConversation M thread =
     join [CHR 0x0A, CHR 0x0A]
       (map (\<lambda>c. ''@'' @ profile_username (cast_profile c) @ '' (''
                  @ toLocaleString M (cast_timestamp c) @ ''):''
                  @ [CHR 0x0A] @ replicate 16 (CHR '' '') @ cast_text c) thread)"

definition template_of :: "Manager \<Rightarrow> (Templates \<Rightarrow> string option) \<Rightarrow> string option" where
  "template_of M field = (case templates M of None \<Rightarrow> None | Some t \<Rightarrow> field t)"

definition dry_run :: "Manager \<Rightarrow> bool" where
  "dry_run M = (case farcasterConfig M of None \<Rightarrow> False | Some c \<Rightarrow> FARCASTER_DRY_RUN c)"

text \<open>
  From the generated reply on (lines 344 to 401). The value of \<open>handleCast\<close> is not used
  by its caller; it is \<open>None\<close> for \<open>undefined\<close>.
\<close>
definition respond :: "Manager \<Rightarrow> World \<Rightarrow> Cast \<Rightarrow> Memory \<Rightarrow> uuid \<Rightarrow> pstate \<Rightarrow> Content \<Rightarrow> Content option action" where
  "respond M W cast memory memoryId state responseContent0 =
     (let responseContent = responseContent0\<lparr>content_inReplyTo := Some memoryId\<rparr>
      in if content_text responseContent = [] then ret None
         else if dry_run M then
           bind (logger Info (Msg_dry_run (cast_hash cast) (content_text responseContent)))
             (\<lambda>_. ret None)
         else
           (\<lambda>st. case callback M W cast memory memoryId responseContent st of
              (st', responseMessages) \<Rightarrow>
                bind (await (Call_updateRecentMessageState state)
                        (\<lambda>tr. updateRecentMessageState W tr state))
                  (\<lambda>newState.
                     bind (await (Call_processActions memory cast responseMessages newState)
                             (\<lambda>tr. void (processActions W tr memory cast responseMessages newState)))
                       (\<lambda>_. ret None)) st'))"

text \<open>
  Lines 250 to 342: the context is built, the inbound record is written unless one is
  stored already, the classifier is asked (its verdict is not read afterwards) and the
  reply is generated. The result is \<open>memoryId\<close>, the composed state and the reply.
\<close>
definition prepareReply :: "Manager \<Rightarrow> World \<Rightarrow> Profile \<Rightarrow> Cast \<Rightarrow> Memory \<Rightarrow> Cast list
    \<Rightarrow> (uuid \<times> pstate \<times> Content) action" where
  "prepareReply M W agent cast memory thread =
     (let currentPost = formatCast M cast;
          senderId = stringToUuid M (numberToString M (cast_authorFid cast))
      in
      bind (await (Call_getTimeline (profile_fid agent) 10)
              (\<lambda>tr. getTimeline W tr (profile_fid agent) 10))
      (\<lambda>timeline.
      let formattedTimeline = formatTimeline M timeline;
          conversation = formattedConversation M thread
      in
      bind (await (Call_composeState memory (profile_username agent) formattedTimeline
                     currentPost conversation)
              (\<lambda>tr. composeState W tr memory (profile_username agent) formattedTimeline
                     currentPost conversation))
      (\<lambda>state.
      let shouldRespondContext = composeContext M state
            (or_else (template_of M farcasterShouldRespondTemplate)
               (or_else (template_of M shouldRespondTemplate)
                  (prompts_shouldRespondTemplate M)));
          memoryId = castUuid M (agentId M) (cast_hash cast)
      in
      bind (getMemoryById W memoryId)
      (\<lambda>castMemory.
      bind (if castMemory = None
            then createMemory W (createCastMemory M (mem_roomId memory) senderId cast)
            else ret ())
      (\<lambda>_.
      bind (await (Call_generateShouldRespond shouldRespondContext)
              (\<lambda>tr. generateShouldRespond W tr shouldRespondContext))
      (\<lambda>shouldRespondResponse.
      let context = composeContext M state
            (nullish_else (template_of M farcasterMessageHandlerTemplate)
               (nullish_else (template_of M messageHandlerTemplate)
                  (prompts_messageHandlerTemplate M)))
      in
      bind (await (Call_generateMessageResponse context)
              (\<lambda>tr. generateMessageResponse W tr context))
      (\<lambda>responseContent. ret (memoryId, state, responseContent))))))))"

definition handleCast :: "Manager \<Rightarrow> World \<Rightarrow> Profile \<Rightarrow> Cast \<Rightarrow> Memory \<Rightarrow> Cast list \<Rightarrow> Content option action" where
  "handleCast M W agent cast memory thread =
     (if profile_fid (cast_profile cast) = profile_fid agent then
        bind (logger Info (Msg_skip_self (cast_hash cast))) (\<lambda>_. ret None)
      else if content_text (mem_content memory) = [] then
        bind (logger Info (Msg_skip_no_text (cast_hash cast)))
          (\<lambda>_. ret (Some \<lparr>content_text = [], content_action = Some ''IGNORE'',
                           content_inReplyTo = None\<rparr>))
      else
        bind (prepareReply M W agent cast memory thread)
          (\<lambda>(memoryId, state, responseContent).
             respond M W cast memory memoryId state responseContent))"

subsection \<open>Gathering the candidates (lines 68 to 173)\<close>

text \<open>
  The filter of a tracked user's casts (lines 106 to 124). The callback reads the clock
  and logs its three checks for every cast, so it is a loop over the state. The reply
  status \<open>cast.parent_hash !== null\<close> goes to the log only.
\<close>
definition isUnprocessed :: "State \<Rightarrow> NeynarCast \<Rightarrow> bool" where
  "isUnprocessed st c = (ncast_hash c \<notin> lastProcessedCasts st)"

definition isRecent :: "World \<Rightarrow> State \<Rightarrow> NeynarCast \<Rightarrow> bool" where
  "isRecent W st c =
     (case ncast_timestamp c of
        None \<Rightarrow> False
      | Some t \<Rightarrow> Date_now W (trace st) - t < 24 * 60 * 60 * 1000)"

definition keepCast :: "World \<Rightarrow> State \<Rightarrow> NeynarCast \<Rightarrow> bool" where
  "keepCast W st c = (isUnprocessed st c \<and> isRecent W st c \<and> length (ncast_text c) > 10)"

fun validCasts :: "World \<Rightarrow> NeynarCast list \<Rightarrow> State \<Rightarrow> State \<times> NeynarCast list" where
  "validCasts W [] st = (st, [])"
| "validCasts W (c # cs) st =
     (let st1 = emit (Logger Log (Msg_cast_checks (ncast_hash c) (isUnprocessed st c)
                        (isRecent W st c) (ncast_parent_hash c \<noteq> None))) st
      in case validCasts W cs st1 of
           (st2, vs) \<Rightarrow> (st2, if keepCast W st c then c # vs else vs))"

text \<open>The object pushed to \<open>processedCasts\<close> (lines 131 to 141).\<close>
definition toCast :: "NeynarCast \<Rightarrow> Profile \<Rightarrow> Cast" where
  "toCast c profile =
     \<lparr>cast_hash = ncast_hash c,
      cast_authorFid = ncast_author_fid c,
      cast_text = ncast_text c,
      cast_profile = profile,
      cast_inReplyTo =
        (case ncast_parent_hash c of
           None \<Rightarrow> None
         | Some h \<Rightarrow> if h \<noteq> [] then Some \<lparr>ref_hash = h, ref_fid = ncast_parent_author_fid c\<rparr>
                     else None),
      cast_timestamp = ncast_timestamp c\<rparr>"

fun processCasts :: "World \<Rightarrow> NeynarCast list \<Rightarrow> Cast list action" where
  "processCasts W [] = ret []"
| "processCasts W (c # cs) =
     bind (await (Call_getProfile (ncast_author_fid c))
             (\<lambda>tr. getProfile W tr (ncast_author_fid c)))
       (\<lambda>profile. bind (processCasts W cs) (\<lambda>rest. ret (toCast c profile # rest)))"

text \<open>
  \<open>Map.prototype.set\<close> on the map \<open>castsByUser\<close>, kept as the list of its entries in
  insertion order: a key already present keeps its place and gets the new value.
\<close>
fun Map_set :: "(string \<times> 'v) list \<Rightarrow> string \<Rightarrow> 'v \<Rightarrow> (string \<times> 'v) list" where
  "Map_set [] k v = [(k, v)]"
| "Map_set ((k', v') # es) k v = (if k' = k then (k, v) # es else (k', v') # Map_set es k v)"

text \<open>
  Lines 88 to 142 of the \<open>try\<close> block for one tracked user: \<open>None\<close> when the user was
  not found (\<open>continue\<close>), else the casts that passed the filter and the casts built
  from them.
\<close>
definition fetchUserCasts :: "World \<Rightarrow> int \<Rightarrow> string \<Rightarrow> (NeynarCast list \<times> Cast list) option action" where
  "fetchUserCasts W agentFid username =
     bind (await (Call_lookupUserByUsername username agentFid)
             (\<lambda>tr. lookupUserByUsername W tr username agentFid))
       (\<lambda>user. case user of
          None \<Rightarrow> bind (logger Error (Msg_user_not_found username)) (\<lambda>_. ret None)
        | Some userFid \<Rightarrow>
            bind (await (Call_fetchCastsForUser userFid agentFid 10 False)
                    (\<lambda>tr. fetchCastsForUser W tr userFid agentFid 10 False))
              (\<lambda>userCasts st.
                 case validCasts W userCasts st of
                   (st1, valid) \<Rightarrow>
                     bind (processCasts W valid) (\<lambda>processed. ret (Some (valid, processed))) st1))"

text \<open>
  One round of the loop over \<open>TARGET_USERS\<close>, with its \<open>catch\<close>. The entry is set
  before the log line of lines 146 to 150, whose \<open>toISOString\<close> throws on an invalid
  date; the \<open>catch\<close> then logs and the entry stays.
\<close>
definition fetchUser :: "World \<Rightarrow> int \<Rightarrow> string \<Rightarrow> (string \<times> Cast list) list \<Rightarrow> State
    \<Rightarrow> State \<times> (string \<times> Cast list) list" where
  "fetchUser W agentFid username castsByUser st =
     (case fetchUserCasts W agentFid username st of
        (st1, Inl e) \<Rightarrow> (emit (Logger Error (Msg_error_fetching username e)) st1, castsByUser)
      | (st1, Inr None) \<Rightarrow> (st1, castsByUser)
      | (st1, Inr (Some (valid, processed))) \<Rightarrow>
          if length processed > 0 then
            (case valid of
               [] \<Rightarrow> (emit (Logger Error (Msg_error_fetching username
                        (TypeError ''Cannot read properties of undefined (reading 'text')''))) st1,
                      Map_set castsByUser username processed)
             | v # _ \<Rightarrow>
                 (case ncast_timestamp v of
                    None \<Rightarrow> (emit (Logger Error (Msg_error_fetching username
                               (RangeError ''Invalid time value''))) st1,
                             Map_set castsByUser username processed)
                  | Some t \<Rightarrow> (emit (Logger Log (Msg_found_valid (length processed) username
                                 (take 100 (ncast_text v)) t
                                 (lastInteractionTimestamp st1 = None))) st1,
                               Map_set castsByUser username processed)))
          else (emit (Logger Log (Msg_no_valid_casts username)) st1, castsByUser))"

fun fetchUsers :: "World \<Rightarrow> int \<Rightarrow> string list \<Rightarrow> (string \<times> Cast list) list \<Rightarrow> State
    \<Rightarrow> State \<times> (string \<times> Cast list) list" where
  "fetchUsers W agentFid [] castsByUser st = (st, castsByUser)"
| "fetchUsers W agentFid (u # us) castsByUser st =
     (case fetchUser W agentFid u castsByUser st of
        (st1, castsByUser1) \<Rightarrow> fetchUsers W agentFid us castsByUser1 st1)"

text \<open>
  \<open>casts[i]\<close> for the index \<open>i\<close> that \<open>Math.floor(Math.random() * casts.length)\<close>
  gave: outside the array the element is \<open>undefined\<close>.
\<close>
definition pick :: "int \<Rightarrow> 'a list \<Rightarrow> 'a option" where
  "pick i xs = (if 0 \<le> i \<and> i < int (length xs) then Some (xs ! nat i) else None)"

text \<open>
  The selection loop (lines 161 to 168). Reading \<open>randomCast.text\<close> for the log throws
  when the element is \<open>undefined\<close>.
\<close>
fun selectCasts :: "World \<Rightarrow> (string \<times> Cast list) list \<Rightarrow> Cast list action" where
  "selectCasts W [] st = (st, Inr [])"
| "selectCasts W ((username, casts) # es) st =
     (if length casts > 0 then
        (case pick (Math_floor_random W (trace st) (length casts)) casts of
           None \<Rightarrow> (emit Call_Math_random st,
                    Inl (TypeError ''Cannot read properties of undefined (reading 'text')''))
         | Some randomCast \<Rightarrow>
             (case selectCasts W es
                     (emit (Logger Log (Msg_selected username (take 100 (cast_text randomCast))))
                        (emit Call_Math_random st)) of
                (st', Inl e) \<Rightarrow> (st', Inl e)
              | (st', Inr selected) \<Rightarrow> (st', Inr (randomCast # selected))))
      else selectCasts W es st)"

text \<open>
  Lines 69 to 173: the mentions, then one cast for each entry of \<open>castsByUser\<close>. The
  result holds the three lists so that properties can name them; \<open>castsCandidates\<close> is
  its last component.
\<close>
definition gatherCandidates :: "World \<Rightarrow> FarcasterConfig \<Rightarrow> int
    \<Rightarrow> (Cast list \<times> (string \<times> Cast list) list \<times> Cast list \<times> Cast list) action" where
  "gatherCandidates W config agentFid =
     bind (await (Call_getMentions agentFid 10) (\<lambda>tr. getMentions W tr agentFid 10))
       (\<lambda>mentions.
          if length (FARCASTER_TARGET_USERS config) > 0 then
            bind (logger Log (Msg_processing_target_users (FARCASTER_TARGET_USERS config)))
              (\<lambda>_ st.
                 case fetchUsers W agentFid (FARCASTER_TARGET_USERS config) [] st of
                   (st1, castsByUser) \<Rightarrow>
                     bind (selectCasts W castsByUser)
                       (\<lambda>selectedCasts.
                          ret (mentions, castsByUser, selectedCasts, mentions @ selectedCasts)) st1)
          else ret (mentions, [], [], mentions))"

subsection \<open>One candidate (lines 178 to 223)\<close>

definition processCandidate :: "Manager \<Rightarrow> World \<Rightarrow> Profile \<Rightarrow> Cast \<Rightarrow> unit action" where
  "processCandidate M W agent cast =
     (let messageHash = toHex M (cast_hash cast);
          conversationId = messageHash @ ''-'' @ agentId M;
          roomId = stringToUuid M conversationId;
          userId = stringToUuid M (numberToString M (cast_authorFid cast));
          pastMemoryId = castUuid M (agentId M) (cast_hash cast)
      in
      bind (getMemoryById W pastMemoryId)
      (\<lambda>pastMemory.
         if pastMemory \<noteq> None then ret ()
         else
           bind (await (Call_ensureConnection userId roomId (profile_username (cast_profile cast))
                          (profile_name (cast_profile cast)) ''farcaster'')
                   (\<lambda>tr. void (ensureConnection W tr userId roomId
                          (profile_username (cast_profile cast))
                          (profile_name (cast_profile cast)) ''farcaster'')))
           (\<lambda>_.
           bind (await (Call_buildConversationThread cast)
                   (\<lambda>tr. buildConversationThread W tr cast))
           (\<lambda>thread.
              let memory = \<lparr>mem_id = None, mem_agentId = agentId M, mem_userId = userId,
                            mem_roomId = roomId,
                            mem_content = \<lparr>content_text = cast_text cast, content_action = None,
                                           content_inReplyTo = None\<rparr>\<rparr>
              in bind (handleCast M W agent cast memory thread) (\<lambda>_. ret ())))))"

fun processCandidates :: "Manager \<Rightarrow> World \<Rightarrow> Profile \<Rightarrow> Cast list \<Rightarrow> unit action" where
  "processCandidates M W agent [] = ret ()"
| "processCandidates M W agent (c # cs) =
     bind (processCandidate M W agent c) (\<lambda>_. processCandidates M W agent cs)"

subsection \<open>A poll cycle and the scheduler (lines 36 to 66 and 175 to 227)\<close>

text \<open>\<open>this.client.farcasterConfig?.FARCASTER_FID ?? 0\<close>\<close>
definition agentFid_of :: "Manager \<Rightarrow> int" where
  "agentFid_of M =
     (case farcasterConfig M of
        None \<Rightarrow> 0
      | Some c \<Rightarrow> (case FARCASTER_FID c of None \<Rightarrow> 0 | Some f \<Rightarrow> f))"

definition handleInteractions :: "Manager \<Rightarrow> World \<Rightarrow> unit action" where
  "handleInteractions M W =
     bind (logger Log Msg_checking)
       (\<lambda>_. let agentFid = agentFid_of M in
          if agentFid = 0 then logger Info Msg_no_fid
          else
            (case farcasterConfig M of
               None \<Rightarrow> throw (TypeError ''Cannot read properties of undefined (reading 'FARCASTER_TARGET_USERS')'')
             | Some config \<Rightarrow>
                 bind (gatherCandidates W config agentFid)
                   (\<lambda>(mentions, castsByUser, selectedCasts, castsCandidates).
                      bind (await (Call_getProfile agentFid) (\<lambda>tr. getProfile W tr agentFid))
                        (\<lambda>agent.
                           bind (processCandidates M W agent castsCandidates)
                             (\<lambda>_ st.
                                let t = Date_now W (trace st)
                                in logger Log (Msg_updated_timestamp t)
                                     (st\<lparr>lastInteractionTimestamp := Some t\<rparr>))))))"

text \<open>\<open>Number(this.client.farcasterConfig?.FARCASTER_POLL_INTERVAL ?? 120) * 1000\<close>\<close>
definition pollDelay :: "Manager \<Rightarrow> int" where
  "pollDelay M =
     (case farcasterConfig M of
        None \<Rightarrow> 120
      | Some c \<Rightarrow> (case FARCASTER_POLL_INTERVAL c of None \<Rightarrow> 120 | Some n \<Rightarrow> n)) * 1000"

text \<open>
  One run of \<open>handleInteractionsLoop\<close>: the cycle inside \<open>try\<close>/\<open>catch\<close>, then
  \<open>setTimeout\<close>, whose handle is kept in \<open>this.timeout\<close>.
\<close>
definition handleInteractionsLoop :: "Manager \<Rightarrow> World \<Rightarrow> State \<Rightarrow> State" where
  "handleInteractionsLoop M W st =
     (let st1 = (case handleInteractions M W st of
                   (st', Inl e) \<Rightarrow> emit (Logger Error (Msg_loop_error e)) st'
                 | (st', Inr _) \<Rightarrow> st')
      in emit (Call_setTimeout (pollDelay M)) (st1\<lparr>timeout := Some (pollDelay M)\<rparr>))"

text \<open>
  \<open>start\<close> runs the loop once; each time the timer fires the loop runs again. The list
  gives the world each run meets, in order.
\<close>
fun pollCycles :: "Manager \<Rightarrow> World list \<Rightarrow> State \<Rightarrow> State" where
  "pollCycles M [] st = st"
| "pollCycles M (W # Ws) st = pollCycles M Ws (handleInteractionsLoop M W st)"

subsection \<open>Reading a trace\<close>

text \<open>The calls of \<open>sendCast\<close>, the feed gateway's post operation.\<close>
definition is_sendCast :: "event \<Rightarrow> bool" where
  "is_sendCast ev = (case ev of Call_sendCast _ _ _ _ _ \<Rightarrow> True | _ \<Rightarrow> False)"

text \<open>The calls that answer a cast: the classifier, the generation and the dispatch.\<close>
definition is_reply_call :: "event \<Rightarrow> bool" where
  "is_reply_call ev =
     (case ev of
        Call_generateShouldRespond _ \<Rightarrow> True
      | Call_generateMessageResponse _ \<Rightarrow> True
      | Call_sendCast _ _ _ _ _ \<Rightarrow> True
      | _ \<Rightarrow> False)"

text \<open>Every call into another module; what is left are the log lines.\<close>
definition is_call :: "event \<Rightarrow> bool" where
  "is_call ev = (case ev of Logger _ _ \<Rightarrow> False | _ \<Rightarrow> True)"


text \<open>The record written for an inbound cast by the loop over the candidates.\<close>
definition inboundRecord :: "Manager \<Rightarrow> Cast \<Rightarrow> Memory" where
  "inboundRecord M cast =
     createCastMemory M (stringToUuid M (toHex M (cast_hash cast) @ ''-'' @ agentId M))
       (stringToUuid M (numberToString M (cast_authorFid cast))) cast"

text \<open>The first record with the action tag set, as \<open>restoreAction\<close> leaves it.\<close>
definition withAction :: "string option \<Rightarrow> Memory \<Rightarrow> Memory" where
  "withAction a m = m\<lparr>mem_content := (mem_content m)\<lparr>content_action := a\<rparr>\<rparr>"

subsection \<open>The aggregation of one tracked author, as the spec describes it\<close>



fun withProfiles :: "World \<Rightarrow> NeynarCast list \<Rightarrow> error + Cast list" where
  "withProfiles W [] = Inr []"
| "withProfiles W (c # cs) =
     (case getProfile W [] (ncast_author_fid c) of
        Inl e \<Rightarrow> Inl e
      | Inr profile \<Rightarrow>
          (case withProfiles W cs of
             Inl e \<Rightarrow> Inl e
           | Inr rest \<Rightarrow> Inr (toCast c profile # rest)))"


text \<open>The \<open>memory\<close> object the loop builds for a candidate (lines 210 to 215).\<close>
definition candidateMemory :: "Manager \<Rightarrow> Cast \<Rightarrow> Memory" where
  "candidateMemory M cast =
     \<lparr>mem_id = None, mem_agentId = agentId M,
      mem_userId = stringToUuid M (numberToString M (cast_authorFid cast)),
      mem_roomId = stringToUuid M (toHex M (cast_hash cast) @ ''-'' @ agentId M),
      mem_content = \<lparr>content_text = cast_text cast, content_action = None,
                     content_inReplyTo = None\<rparr>\<rparr>"

text \<open>
  A step is quiet when it changes nothing but the trace and adds no call that answers a
  cast.
\<close>
definition quiet :: "State \<Rightarrow> State \<Rightarrow> bool" where
  "quiet st st' =
     (store st' = store st \<and> lastProcessedCasts st' = lastProcessedCasts st \<and>
      timeout st' = timeout st \<and> lastInteractionTimestamp st' = lastInteractionTimestamp st \<and>
      filter is_reply_call (trace st') = filter is_reply_call (trace st))"

subsection \<open>Example inputs\<close>

text \<open>
  A manager, a world in which every call resolves, and two casts, for running the
  definitions on concrete inputs. The helpers the manager takes as parameters are simple
  stand-ins here.
\<close>

definition ex_config :: FarcasterConfig where
  "ex_config = \<lparr>FARCASTER_FID = Some 1, FARCASTER_POLL_INTERVAL = None,
                 FARCASTER_DRY_RUN = False, FARCASTER_TARGET_USERS = []\<rparr>"

definition ex_manager :: Manager where
  "ex_manager =
     \<lparr>agentId = ''agent'', signerUuid = ''signer'', farcasterConfig = Some ex_config,
      templates = None,
      castUuid = (\<lambda>a h. h @ ''-'' @ a),
      stringToUuid = (\<lambda>s. s),
      toHex = (\<lambda>s. ''0x'' @ s),
      numberToString = (\<lambda>n. if n = 1 then ''1'' else if n = 2 then ''2'' else ''9''),
      formatCast = cast_text,
      formatTimeline = (\<lambda>ts. concat (map cast_text ts)),
      toLocaleString = (\<lambda>t. ''Jan 1, 12:00 AM''),
      composeContext = (\<lambda>ps t. t @ ps),
      prompts_shouldRespondTemplate = ''should respond? '',
      prompts_messageHandlerTemplate = ''reply to: ''\<rparr>"

definition ex_dry_manager :: Manager where
  "ex_dry_manager = ex_manager\<lparr>farcasterConfig := Some (ex_config\<lparr>FARCASTER_DRY_RUN := True\<rparr>)\<rparr>"

definition ex_agent :: Profile where
  "ex_agent = \<lparr>profile_fid = 1, profile_name = ''Agent'', profile_username = ''agent''\<rparr>"

definition ex_alice :: Profile where
  "ex_alice = \<lparr>profile_fid = 2, profile_name = ''Alice'', profile_username = ''alice''\<rparr>"

definition ex_cast :: Cast where
  "ex_cast = \<lparr>cast_hash = ''abc'', cast_authorFid = 2, cast_text = ''hello agent'',
               cast_profile = ex_alice, cast_inReplyTo = None, cast_timestamp = Some 1000\<rparr>"

definition ex_own_cast :: Cast where
  "ex_own_cast = \<lparr>cast_hash = ''own'', cast_authorFid = 1, cast_text = ''my own post'',
                   cast_profile = ex_agent, cast_inReplyTo = None, cast_timestamp = Some 1000\<rparr>"

definition ex_memory :: Memory where
  "ex_memory = \<lparr>mem_id = None, mem_agentId = ''agent'', mem_userId = ''2'',
                 mem_roomId = ''0xabc-agent'',
                 mem_content = \<lparr>content_text = ''hello agent'', content_action = None,
                                content_inReplyTo = None\<rparr>\<rparr>"

definition ex_reply :: Content where
  "ex_reply = \<lparr>content_text = ''hi Alice'', content_action = Some ''REPLY'',
                content_inReplyTo = None\<rparr>"

text \<open>What the example dispatch returns for a reply: one record per chunk, no action tag.\<close>
definition ex_sent :: "string \<Rightarrow> Content \<Rightarrow> uuid \<Rightarrow> Sent" where
  "ex_sent h content roomId =
     \<lparr>sent_memory = \<lparr>mem_id = Some (h @ ''-agent''), mem_agentId = ''agent'', mem_userId = ''agent'',
                      mem_roomId = roomId,
                      mem_content = \<lparr>content_text = content_text content, content_action = None,
                                     content_inReplyTo = content_inReplyTo content\<rparr>\<rparr>,
      sent_cast = \<lparr>cast_hash = h, cast_authorFid = 1, cast_text = content_text content,
                   cast_profile = ex_agent, cast_inReplyTo = None, cast_timestamp = Some 2000\<rparr>\<rparr>"

definition ex_world :: World where
  "ex_world =
     \<lparr>getMentions = (\<lambda>tr f n. Inr [ex_cast]),
      lookupUserByUsername = (\<lambda>tr u f. Inr (Some 2)),
      fetchCastsForUser = (\<lambda>tr f v n b. Inr []),
      getProfile = (\<lambda>tr f. Inr (if f = 1 then ex_agent else ex_alice)),
      Math_floor_random = (\<lambda>tr n. int (n div 2)),
      Date_now = (\<lambda>tr. 100000000),
      getMemoryById_rejects = (\<lambda>tr i. None),
      createMemory_rejects = (\<lambda>tr m. None),
      ensureConnection = (\<lambda>tr u r n d s. None),
      buildConversationThread = (\<lambda>tr c. Inr [c]),
      getTimeline = (\<lambda>tr f n. Inr []),
      composeState = (\<lambda>tr m u t p c. Inr ''state''),
      generateShouldRespond = (\<lambda>tr c. Inr ''RESPOND''),
      generateMessageResponse = (\<lambda>tr c. Inr ex_reply),
      sendCast = (\<lambda>tr s p c r t. Inr [ex_sent ''r1'' c r]),
      updateRecentMessageState = (\<lambda>tr ps. Inr ps),
      processActions = (\<lambda>tr m c ms ps. None)\<rparr>"

definition ex_ncast :: "string \<Rightarrow> int option \<Rightarrow> string \<Rightarrow> string option \<Rightarrow> NeynarCast" where
  "ex_ncast h t txt parent =
     \<lparr>ncast_hash = h, ncast_author_fid = 2, ncast_text = txt, ncast_parent_hash = parent,
      ncast_parent_author_fid = 3, ncast_timestamp = t\<rparr>"

text \<open>A configuration with one tracked user, and a world where that user has three casts.\<close>
definition ex_target_config :: FarcasterConfig where
  "ex_target_config = ex_config\<lparr>FARCASTER_TARGET_USERS := [''bob'']\<rparr>"

definition ex_target_world :: World where
  "ex_target_world =
     ex_world\<lparr>fetchCastsForUser := (\<lambda>tr f v n b.
        Inr [ex_ncast ''n1'' (Some 99999000) ''the first qualifying cast'' None,
             ex_ncast ''n2'' (Some 99999000) ''the second qualifying cast'' None,
             ex_ncast ''n3'' (Some 99999000) ''the third qualifying cast'' None])\<rparr>"

text \<open>
  Three tracked handles: bob has three casts, dave is not found, carol has one cast that
  passes the filter and one that is too short.
\<close>
definition ex_feed_config :: FarcasterConfig where
  "ex_feed_config = ex_config\<lparr>FARCASTER_TARGET_USERS := [''bob'', ''dave'', ''carol'']\<rparr>"

definition ex_feed_world :: World where
  "ex_feed_world =
     ex_world\<lparr>
       lookupUserByUsername := (\<lambda>tr u f.
          if u = ''bob'' then Inr (Some 2) else if u = ''carol'' then Inr (Some 3) else Inr None),
       fetchCastsForUser := (\<lambda>tr f v n b.
          if f = 2 then
            Inr [ex_ncast ''n1'' (Some 99999000) ''the first qualifying cast'' None,
                 ex_ncast ''n2'' (Some 99999000) ''the second qualifying cast'' None,
                 ex_ncast ''n3'' (Some 99999000) ''the third qualifying cast'' None]
          else
            Inr [ex_ncast ''c1'' (Some 99999000) ''too short.'' None,
                 ex_ncast ''c2'' (Some 99999000) ''a cast by carol'' None])\<rparr>"

text \<open>The world of \<open>ex_target_world\<close> with no profile to be had for anyone but the agent.\<close>
definition ex_noprofile_world :: World where
  "ex_noprofile_world =
     ex_target_world\<lparr>getProfile := (\<lambda>tr f.
        if f = 1 then Inr ex_agent else Inl (Rejected ''no profile''))\<rparr>"

text \<open>A world where a reply is split into two casts, and one where the reply is empty.\<close>
definition ex_split_world :: World where
  "ex_split_world =
     ex_world\<lparr>sendCast := (\<lambda>tr s p c r t. Inr [ex_sent ''r1'' c r, ex_sent ''r2'' c r])\<rparr>"

definition ex_silent_world :: World where
  "ex_silent_world =
     ex_world\<lparr>generateMessageResponse := (\<lambda>tr c. Inr (ex_reply\<lparr>content_text := []\<rparr>))\<rparr>"

text \<open>A world where the dispatch is rejected.\<close>
definition ex_offline_world :: World where
  "ex_offline_world = ex_world\<lparr>sendCast := (\<lambda>tr s p c r t. Inl (Rejected ''hub unreachable''))\<rparr>"

definition ex_state :: State where
  "ex_state = \<lparr>store = [], lastProcessedCasts = {}, lastInteractionTimestamp = None,
                timeout = None, trace = []\<rparr>"

section \<open>Properties\<close>

subsection \<open>Auxiliary facts\<close>

lemmas act_defs = ret_def throw_def bind_def emit_def logger_def await_def void_def

lemmas ex_defs = ex_config_def ex_manager_def ex_dry_manager_def ex_agent_def ex_alice_def
  ex_cast_def ex_own_cast_def ex_memory_def ex_reply_def ex_sent_def ex_world_def ex_state_def
  ex_ncast_def ex_target_config_def ex_target_world_def ex_split_world_def ex_silent_world_def
  ex_offline_world_def ex_feed_config_def ex_feed_world_def ex_noprofile_world_def

lemma is_sendCast_simps [simp]:
  "is_sendCast (Logger a1 a2) = False"
  "is_sendCast (Call_getMentions b1 b2) = False"
  "is_sendCast (Call_lookupUserByUsername c1 c2) = False"
  "is_sendCast (Call_fetchCastsForUser d1 d2 d3 d4) = False"
  "is_sendCast (Call_getProfile e1) = False"
  "is_sendCast (Call_Math_random) = False"
  "is_sendCast (Call_getMemoryById g1) = False"
  "is_sendCast (Call_createMemory h1) = False"
  "is_sendCast (Call_ensureConnection i1 i2 i3 i4 i5) = False"
  "is_sendCast (Call_buildConversationThread j1) = False"
  "is_sendCast (Call_getTimeline k1 k2) = False"
  "is_sendCast (Call_composeState l1 l2 l3 l4 l5) = False"
  "is_sendCast (Call_generateShouldRespond m1) = False"
  "is_sendCast (Call_generateMessageResponse n1) = False"
  "is_sendCast (Call_sendCast o1 o2 o3 o4 o5) = True"
  "is_sendCast (Call_updateRecentMessageState p1) = False"
  "is_sendCast (Call_processActions q1 q2 q3 q4) = False"
  "is_sendCast (Call_setTimeout r1) = False"
  by (simp_all add: is_sendCast_def)

lemma is_reply_call_simps [simp]:
  "is_reply_call (Logger a1 a2) = False"
  "is_reply_call (Call_getMentions b1 b2) = False"
  "is_reply_call (Call_lookupUserByUsername c1 c2) = False"
  "is_reply_call (Call_fetchCastsForUser d1 d2 d3 d4) = False"
  "is_reply_call (Call_getProfile e1) = False"
  "is_reply_call (Call_Math_random) = False"
  "is_reply_call (Call_getMemoryById g1) = False"
  "is_reply_call (Call_createMemory h1) = False"
  "is_reply_call (Call_ensureConnection i1 i2 i3 i4 i5) = False"
  "is_reply_call (Call_buildConversationThread j1) = False"
  "is_reply_call (Call_getTimeline k1 k2) = False"
  "is_reply_call (Call_composeState l1 l2 l3 l4 l5) = False"
  "is_reply_call (Call_generateShouldRespond m1) = True"
  "is_reply_call (Call_generateMessageResponse n1) = True"
  "is_reply_call (Call_sendCast o1 o2 o3 o4 o5) = True"
  "is_reply_call (Call_updateRecentMessageState p1) = False"
  "is_reply_call (Call_processActions q1 q2 q3 q4) = False"
  "is_reply_call (Call_setTimeout r1) = False"
  by (simp_all add: is_reply_call_def)

lemma is_call_simps [simp]:
  "is_call (Logger a1 a2) = False"
  "is_call (Call_getMentions b1 b2) = True"
  "is_call (Call_lookupUserByUsername c1 c2) = True"
  "is_call (Call_fetchCastsForUser d1 d2 d3 d4) = True"
  "is_call (Call_getProfile e1) = True"
  "is_call (Call_Math_random) = True"
  "is_call (Call_getMemoryById g1) = True"
  "is_call (Call_createMemory h1) = True"
  "is_call (Call_ensureConnection i1 i2 i3 i4 i5) = True"
  "is_call (Call_buildConversationThread j1) = True"
  "is_call (Call_getTimeline k1 k2) = True"
  "is_call (Call_composeState l1 l2 l3 l4 l5) = True"
  "is_call (Call_generateShouldRespond m1) = True"
  "is_call (Call_generateMessageResponse n1) = True"
  "is_call (Call_sendCast o1 o2 o3 o4 o5) = True"
  "is_call (Call_updateRecentMessageState p1) = True"
  "is_call (Call_processActions q1 q2 q3 q4) = True"
  "is_call (Call_setTimeout r1) = True"
  by (simp_all add: is_call_def)

lemma find_append_new:
  "find P (xs @ [x]) = (case find P xs of Some y \<Rightarrow> Some y | None \<Rightarrow> if P x then Some x else None)"
  by (induction xs) auto


lemma filter_sendCast_reply:
  "filter is_reply_call xs = filter is_reply_call ys \<Longrightarrow> filter is_sendCast xs = filter is_sendCast ys"
proof -
  assume h: "filter is_reply_call xs = filter is_reply_call ys"
  have "\<And>zs. filter is_sendCast zs = filter is_sendCast (filter is_reply_call zs)"
    subgoal for zs by (induction zs) (auto simp: is_sendCast_def split: event.splits)
    done
  then show ?thesis using h by metis
qed

lemma createMemories_all:
  "\<forall>tr m. createMemory_rejects W tr m = None \<Longrightarrow>
   createMemories W ms st =
     (st\<lparr>store := store st @ ms, trace := trace st @ map Call_createMemory ms\<rparr>, Inr ())"
  by (induction ms arbitrary: st) (auto simp: createMemory_def emit_def)


lemma callback_rejected:
  assumes "sendCast W (trace st) (signerUuid M) (cast_profile cast) (withInReplyTo memoryId content)
             (mem_roomId memory) (replyTarget cast) = Inl e"
  shows "callback M W cast memory memoryId content st =
     (st\<lparr>trace := trace st @ [Call_sendCast (signerUuid M) (cast_profile cast)
                    (withInReplyTo memoryId content) (mem_roomId memory) (replyTarget cast),
                  Logger Error (Msg_error_sending e)]\<rparr>, [])"
  using assms by (simp add: callback_def callback_try_def act_defs Let_def)

lemma callback_empty:
  assumes "sendCast W (trace st) (signerUuid M) (cast_profile cast) (withInReplyTo memoryId content)
             (mem_roomId memory) (replyTarget cast) = Inr []"
  shows "callback M W cast memory memoryId content st =
     (st\<lparr>lastProcessedCasts := insert (cast_hash cast) (lastProcessedCasts st),
         trace := trace st @ [Call_sendCast (signerUuid M) (cast_profile cast)
                    (withInReplyTo memoryId content) (mem_roomId memory) (replyTarget cast),
                  Logger Error (Msg_error_sending
                    (TypeError ''Cannot read properties of undefined (reading 'memory')''))]\<rparr>, [])"
  using assms by (simp add: callback_def callback_try_def restoreAction_def act_defs Let_def)

lemma withInReplyTo_action [simp]: "content_action (withInReplyTo i c) = content_action c"
  by (simp add: withInReplyTo_def)

lemma callback_sent:
  assumes send: "sendCast W (trace st) (signerUuid M) (cast_profile cast) (withInReplyTo memoryId content)
             (mem_roomId memory) (replyTarget cast) = Inr (r # rs)"
    and writes: "\<forall>tr m. createMemory_rejects W tr m = None"
  shows "callback M W cast memory memoryId content st =
     (st\<lparr>lastProcessedCasts := insert (cast_hash cast) (lastProcessedCasts st),
         store := store st @ withAction (content_action content) (sent_memory r) # map sent_memory rs,
         trace := trace st @ Call_sendCast (signerUuid M) (cast_profile cast)
                    (withInReplyTo memoryId content) (mem_roomId memory) (replyTarget cast)
                  # map Call_createMemory
                      (withAction (content_action content) (sent_memory r) # map sent_memory rs)\<rparr>,
      withAction (content_action content) (sent_memory r) # map sent_memory rs)"
  using send writes
  by (simp add: callback_def callback_try_def restoreAction_def act_defs Let_def
        createMemories_all[OF writes] createMemory_def withAction_def)

lemma mem_id_withAction [simp]: "mem_id (withAction a m) = mem_id m"
  by (simp add: withAction_def)



lemma respond_empty:
  "content_text rc = [] \<Longrightarrow> respond M W cast memory mid ps rc st = (st, Inr None)"
  by (simp add: respond_def ret_def)

lemma respond_dry:
  "dry_run M \<Longrightarrow> content_text rc \<noteq> [] \<Longrightarrow>
   respond M W cast memory mid ps rc st =
     (emit (Logger Info (Msg_dry_run (cast_hash cast) (content_text rc))) st, Inr None)"
  by (simp add: respond_def act_defs)

lemma respond_live:
  assumes "\<not> dry_run M" "content_text rc \<noteq> []"
    and "callback M W cast memory mid (rc\<lparr>content_inReplyTo := Some mid\<rparr>) st = (st1, ms)"
    and "respond M W cast memory mid ps rc st = (st', r)"
  shows "store st' = store st1 \<and> lastProcessedCasts st' = lastProcessedCasts st1 \<and>
         timeout st' = timeout st1 \<and> lastInteractionTimestamp st' = lastInteractionTimestamp st1 \<and>
         filter is_reply_call (trace st') = filter is_reply_call (trace st1)"
  using assms
  by (auto simp: respond_def act_defs Let_def split: sum.splits prod.splits option.splits if_splits)


lemma handleCast_self:
  "profile_fid (cast_profile cast) = profile_fid agent \<Longrightarrow>
   handleCast M W agent cast memory thread st =
     (emit (Logger Info (Msg_skip_self (cast_hash cast))) st, Inr None)"
  by (simp add: handleCast_def act_defs)

lemma handleCast_no_text:
  "profile_fid (cast_profile cast) \<noteq> profile_fid agent \<Longrightarrow> content_text (mem_content memory) = [] \<Longrightarrow>
   handleCast M W agent cast memory thread st =
     (emit (Logger Info (Msg_skip_no_text (cast_hash cast))) st,
      Inr (Some \<lparr>content_text = [], content_action = Some ''IGNORE'', content_inReplyTo = None\<rparr>))"
  by (simp add: handleCast_def act_defs)

lemma handleCast_prepared:
  "profile_fid (cast_profile cast) \<noteq> profile_fid agent \<Longrightarrow> content_text (mem_content memory) \<noteq> [] \<Longrightarrow>
   prepareReply M W agent cast memory thread st = (st1, Inr (mid, ps, rc)) \<Longrightarrow>
   handleCast M W agent cast memory thread st = respond M W cast memory mid ps rc st1"
  by (simp add: handleCast_def act_defs)

lemma handleCast_unprepared:
  "profile_fid (cast_profile cast) \<noteq> profile_fid agent \<Longrightarrow> content_text (mem_content memory) \<noteq> [] \<Longrightarrow>
   prepareReply M W agent cast memory thread st = (st1, Inl e) \<Longrightarrow>
   handleCast M W agent cast memory thread st = (st1, Inl e)"
  by (simp add: handleCast_def act_defs)

lemma loop_timeout: "timeout (handleInteractionsLoop M W st) = Some (pollDelay M)"
  by (simp add: handleInteractionsLoop_def emit_def Let_def)

lemma pollCycles_timeout: "Ws \<noteq> [] \<Longrightarrow> timeout (pollCycles M Ws st) = Some (pollDelay M)"
proof (induction Ws arbitrary: st)
  case Nil
  then show ?case by simp
next
  case (Cons W Ws)
  show ?case
  proof (cases Ws)
    case Nil
    then show ?thesis by (simp add: loop_timeout)
  next
    case (Cons V Vs)
    with Cons.IH show ?thesis by simp
  qed
qed

subsection \<open>The scheduler\<close>

text \<open>
  Claim C7. After every run of the polling loop the next run is scheduled: the timer is
  set to the configured interval in seconds (120 when none is configured) times 1000
  milliseconds, whether the cycle returned or threw. An error thrown by the cycle is
  logged and swallowed, and \<open>setTimeout\<close> is the next thing that happens. So after any
  number of runs, whatever the world answered in each, a timer is pending.
\<close>
theorem next_cycle_scheduled:
  "timeout (handleInteractionsLoop M W st) = Some (pollDelay M)
   \<and> (\<forall>st' e. handleInteractions M W st = (st', Inl e) \<longrightarrow>
        trace (handleInteractionsLoop M W st) =
          trace st' @ [Logger Error (Msg_loop_error e), Call_setTimeout (pollDelay M)])
   \<and> (\<forall>st' u. handleInteractions M W st = (st', Inr u) \<longrightarrow>
        trace (handleInteractionsLoop M W st) = trace st' @ [Call_setTimeout (pollDelay M)])
   \<and> (farcasterConfig M = None \<longrightarrow> pollDelay M = 120 * 1000)
   \<and> (\<forall>c. farcasterConfig M = Some c \<longrightarrow>
        pollDelay M = (case FARCASTER_POLL_INTERVAL c of None \<Rightarrow> 120 | Some n \<Rightarrow> n) * 1000)
   \<and> (Ws \<noteq> [] \<longrightarrow> timeout (pollCycles M Ws st) = Some (pollDelay M))"
  by (auto simp: loop_timeout pollCycles_timeout handleInteractionsLoop_def emit_def pollDelay_def)

theorem next_cycle_scheduled_witness:
  "handleInteractions ex_manager (ex_world\<lparr>getMentions := (\<lambda>tr f n. Inl (Rejected ''feed down''))\<rparr>) ex_state =
     (ex_state\<lparr>trace := [Logger Log Msg_checking, Call_getMentions 1 10]\<rparr>, Inl (Rejected ''feed down''))
   \<and> trace (handleInteractionsLoop ex_manager
        (ex_world\<lparr>getMentions := (\<lambda>tr f n. Inl (Rejected ''feed down''))\<rparr>) ex_state) =
       [Logger Log Msg_checking, Call_getMentions 1 10,
        Logger Error (Msg_loop_error (Rejected ''feed down'')), Call_setTimeout 120000]
   \<and> timeout (pollCycles ex_manager
        [ex_world\<lparr>getMentions := (\<lambda>tr f n. Inl (Rejected ''feed down''))\<rparr>, ex_world] ex_state) = Some 120000"
proof -
  have h: "handleInteractions ex_manager (ex_world\<lparr>getMentions := (\<lambda>tr f n. Inl (Rejected ''feed down''))\<rparr>) ex_state =
     (ex_state\<lparr>trace := [Logger Log Msg_checking, Call_getMentions 1 10]\<rparr>, Inl (Rejected ''feed down''))"
    by (simp add: ex_defs handleInteractions_def gatherCandidates_def agentFid_of_def act_defs)
  have d: "pollDelay ex_manager = 120000" by (simp add: ex_defs pollDelay_def)
  show ?thesis
    using h d next_cycle_scheduled[of ex_manager "ex_world\<lparr>getMentions := (\<lambda>tr f n. Inl (Rejected ''feed down''))\<rparr>"
        ex_state "[ex_world\<lparr>getMentions := (\<lambda>tr f n. Inl (Rejected ''feed down''))\<rparr>, ex_world]"]
    by (simp add: ex_state_def)
qed

text \<open>
  Claim C10. When the configuration or its agent FID is absent, or the FID is 0, a
  cycle logs two lines and returns: no call leaves the manager, no candidate is looked
  at, the store and the processed set stay as they were, and the loop still sets the
  timer for the next cycle.
\<close>
theorem no_fid_noop:
  assumes "farcasterConfig M = None \<or>
           (\<exists>c. farcasterConfig M = Some c \<and> (FARCASTER_FID c = None \<or> FARCASTER_FID c = Some 0))"
  shows "handleInteractions M W st =
           (st\<lparr>trace := trace st @ [Logger Log Msg_checking, Logger Info Msg_no_fid]\<rparr>, Inr ())
         \<and> handleInteractionsLoop M W st =
           st\<lparr>timeout := Some (pollDelay M),
              trace := trace st @ [Logger Log Msg_checking, Logger Info Msg_no_fid,
                                   Call_setTimeout (pollDelay M)]\<rparr>"
proof -
  from assms have z: "agentFid_of M = 0" by (auto simp: agentFid_of_def)
  then have h: "handleInteractions M W st =
           (st\<lparr>trace := trace st @ [Logger Log Msg_checking, Logger Info Msg_no_fid]\<rparr>, Inr ())"
    by (simp add: handleInteractions_def act_defs)
  then show ?thesis by (simp add: handleInteractionsLoop_def emit_def)
qed

theorem no_fid_noop_witness:
  "handleInteractionsLoop (ex_manager\<lparr>farcasterConfig := Some (ex_config\<lparr>FARCASTER_FID := Some 0\<rparr>)\<rparr>)
      ex_world ex_state =
     ex_state\<lparr>timeout := Some 120000,
       trace := [Logger Log Msg_checking, Logger Info Msg_no_fid, Call_setTimeout 120000]\<rparr>"
  using no_fid_noop[of "ex_manager\<lparr>farcasterConfig := Some (ex_config\<lparr>FARCASTER_FID := Some 0\<rparr>)\<rparr>"
      ex_world ex_state]
  by (simp add: ex_defs pollDelay_def)

subsection \<open>Answering one cast\<close>

text \<open>
  Claim C8. A candidate whose profile carries the agent's own fid ends \<open>handleCast\<close>
  at its first check, with one log line. In the loop round of that candidate neither the
  should-respond classifier nor the reply generation nor the dispatch is called, and
  neither the store nor the processed set changes.
\<close>
theorem self_authored_skipped:
  assumes self: "profile_fid (cast_profile cast) = profile_fid agent"
  shows "handleCast M W agent cast memory thread st =
           (emit (Logger Info (Msg_skip_self (cast_hash cast))) st, Inr None)
         \<and> filter is_reply_call (trace (fst (processCandidate M W agent cast st))) =
             filter is_reply_call (trace st)
         \<and> store (fst (processCandidate M W agent cast st)) = store st
         \<and> lastProcessedCasts (fst (processCandidate M W agent cast st)) = lastProcessedCasts st"
  using self
  by (auto simp: handleCast_self processCandidate_def getMemoryById_def act_defs Let_def
           split: sum.splits prod.splits option.splits)

theorem self_authored_skipped_witness:
  "profile_fid (cast_profile ex_own_cast) = profile_fid ex_agent \<and>
   trace (fst (processCandidate ex_manager ex_world ex_agent ex_own_cast ex_state)) =
     [Call_getMemoryById ''own-agent'',
      Call_ensureConnection ''1'' ''0xown-agent'' ''agent'' ''Agent'' ''farcaster'',
      Call_buildConversationThread ex_own_cast,
      Logger Info (Msg_skip_self ''own'')]"
  using self_authored_skipped[of ex_own_cast ex_agent ex_manager ex_world ex_memory "[]" ex_state]
  by (simp add: ex_defs processCandidate_def handleCast_def getMemoryById_def act_defs Let_def)

text \<open>
  Claim C9. When \<open>sendCast\<close> resolves to an empty array, the callback has added the
  cast's hash to \<open>lastProcessedCasts\<close> before it reads \<open>results[0]\<close>; that read
  throws a TypeError, which the callback's own \<open>catch\<close> logs, and the callback returns
  \<open>[]\<close>. The candidate then goes on to \<open>updateRecentMessageState\<close> and
  \<open>processActions\<close> with no response messages: the hash is in the processed set and
  no record was written.
\<close>
theorem dispatch_empty_result:
  assumes nodry: "\<not> dry_run M" and filled: "content_text rc \<noteq> []"
    and send: "sendCast W (trace st) (signerUuid M) (cast_profile cast)
                 (withInReplyTo mid (rc\<lparr>content_inReplyTo := Some mid\<rparr>))
                 (mem_roomId memory) (replyTarget cast) = Inr []"
  shows "callback M W cast memory mid (rc\<lparr>content_inReplyTo := Some mid\<rparr>) st =
           (st\<lparr>lastProcessedCasts := insert (cast_hash cast) (lastProcessedCasts st),
               trace := trace st @
                 [Call_sendCast (signerUuid M) (cast_profile cast)
                    (withInReplyTo mid (rc\<lparr>content_inReplyTo := Some mid\<rparr>))
                    (mem_roomId memory) (replyTarget cast),
                  Logger Error (Msg_error_sending
                    (TypeError ''Cannot read properties of undefined (reading 'memory')''))]\<rparr>, [])
         \<and> cast_hash cast \<in> lastProcessedCasts (fst (respond M W cast memory mid ps rc st))
         \<and> store (fst (respond M W cast memory mid ps rc st)) = store st
         \<and> filter is_call (trace (fst (respond M W cast memory mid ps rc st))) =
             filter is_call (trace st) @
               Call_sendCast (signerUuid M) (cast_profile cast)
                    (withInReplyTo mid (rc\<lparr>content_inReplyTo := Some mid\<rparr>))
                    (mem_roomId memory) (replyTarget cast)
               # Call_updateRecentMessageState ps
               # (case updateRecentMessageState W
                         (trace (fst (callback M W cast memory mid (rc\<lparr>content_inReplyTo := Some mid\<rparr>) st))) ps of
                    Inl e \<Rightarrow> []
                  | Inr newState \<Rightarrow> [Call_processActions memory cast [] newState])"
proof -
  note cb = callback_empty[OF send]
  obtain st' r where rs: "respond M W cast memory mid ps rc st = (st', r)"
    by (cases "respond M W cast memory mid ps rc st")
  from respond_live[OF nodry filled cb rs] have
    "store st' = store st" "cast_hash cast \<in> lastProcessedCasts st'" by simp_all
  moreover have "filter is_call (trace st') = filter is_call (trace st) @
               Call_sendCast (signerUuid M) (cast_profile cast)
                    (withInReplyTo mid (rc\<lparr>content_inReplyTo := Some mid\<rparr>))
                    (mem_roomId memory) (replyTarget cast)
               # Call_updateRecentMessageState ps
               # (case updateRecentMessageState W
                         (trace (fst (callback M W cast memory mid (rc\<lparr>content_inReplyTo := Some mid\<rparr>) st))) ps of
                    Inl e \<Rightarrow> []
                  | Inr newState \<Rightarrow> [Call_processActions memory cast [] newState])"
    using rs nodry filled cb
    by (auto simp: respond_def act_defs Let_def split: sum.splits prod.splits)
  ultimately show ?thesis using cb rs by simp
qed

theorem dispatch_empty_result_witness:
  "content_text ex_reply \<noteq> [] \<and> \<not> dry_run ex_manager \<and>
   lastProcessedCasts (fst (respond ex_manager (ex_world\<lparr>sendCast := (\<lambda>tr s p c r t. Inr [])\<rparr>)
      ex_cast ex_memory ''abc-agent'' ''state'' ex_reply ex_state)) = {''abc''} \<and>
   store (fst (respond ex_manager (ex_world\<lparr>sendCast := (\<lambda>tr s p c r t. Inr [])\<rparr>)
      ex_cast ex_memory ''abc-agent'' ''state'' ex_reply ex_state)) = []"
  using dispatch_empty_result[of ex_manager ex_reply "ex_world\<lparr>sendCast := (\<lambda>tr s p c r t. Inr [])\<rparr>"
      ex_state ex_cast "''abc-agent''" ex_memory "''state''"]
  by (simp add: ex_defs dry_run_def respond_def callback_def callback_try_def restoreAction_def
        withInReplyTo_def truthy_def replyTarget_def act_defs Let_def)

lemma validCasts_frame:
  "validCasts W cs st = (st', vs) \<Longrightarrow>
     store st' = store st \<and> lastProcessedCasts st' = lastProcessedCasts st \<and>
     timeout st' = timeout st \<and> lastInteractionTimestamp st' = lastInteractionTimestamp st \<and>
     filter is_call (trace st') = filter is_call (trace st)"
proof (induction cs arbitrary: st st' vs)
  case Nil
  then show ?case by simp
next
  case (Cons c cs)
  let ?st1 = "emit (Logger Log (Msg_cast_checks (ncast_hash c) (isUnprocessed st c)
                        (isRecent W st c) (ncast_parent_hash c \<noteq> None))) st"
  obtain st2 ws where r: "validCasts W cs ?st1 = (st2, ws)" by (cases "validCasts W cs ?st1")
  with Cons.prems have "st' = st2" by (simp add: Let_def)
  with Cons.IH[OF r] show ?case by (simp add: emit_def)
qed

lemma validCasts_const_clock:
  "\<forall>tr. Date_now W tr = now \<Longrightarrow>
   snd (validCasts W cs st) =
     filter (\<lambda>c. ncast_hash c \<notin> lastProcessedCasts st \<and>
                 (\<exists>t. ncast_timestamp c = Some t \<and> now - t < 24 * 60 * 60 * 1000) \<and>
                 10 < length (ncast_text c)) cs"
proof (induction cs arbitrary: st)
  case Nil
  then show ?case by simp
next
  case (Cons c cs)
  let ?P = "\<lambda>c. ncast_hash c \<notin> lastProcessedCasts st \<and>
                 (\<exists>t. ncast_timestamp c = Some t \<and> now - t < 24 * 60 * 60 * 1000) \<and>
                 10 < length (ncast_text c)"
  let ?st1 = "emit (Logger Log (Msg_cast_checks (ncast_hash c) (isUnprocessed st c)
                        (isRecent W st c) (ncast_parent_hash c \<noteq> None))) st"
  obtain st2 ws where r: "validCasts W cs ?st1 = (st2, ws)" by (cases "validCasts W cs ?st1")
  have l: "lastProcessedCasts ?st1 = lastProcessedCasts st" by (simp add: emit_def)
  have ws: "ws = filter ?P cs"
    using Cons.IH[OF Cons.prems, of ?st1] r unfolding l by simp
  have k: "keepCast W st c = ?P c"
    using Cons.prems by (auto simp: keepCast_def isUnprocessed_def isRecent_def split: option.splits)
  have "snd (validCasts W (c # cs) st) = (if keepCast W st c then c # ws else ws)"
    using r by (simp add: Let_def)
  then show ?case unfolding ws k by simp
qed

lemma validCasts_trace_mono:
  "set (trace st) \<subseteq> set (trace (fst (validCasts W cs st)))"
proof (induction cs arbitrary: st)
  case Nil
  then show ?case by simp
next
  case (Cons c cs)
  let ?st1 = "emit (Logger Log (Msg_cast_checks (ncast_hash c) (isUnprocessed st c)
                        (isRecent W st c) (ncast_parent_hash c \<noteq> None))) st"
  have "fst (validCasts W (c # cs) st) = fst (validCasts W cs ?st1)"
    by (simp add: Let_def split: prod.splits)
  moreover have "set (trace st) \<subseteq> set (trace ?st1)" by (auto simp: emit_def)
  ultimately show ?case using Cons.IH[of ?st1] by auto
qed

lemma validCasts_logged:
  "c \<in> set cs \<Longrightarrow>
   \<exists>u r. Logger Log (Msg_cast_checks (ncast_hash c) u r (ncast_parent_hash c \<noteq> None))
           \<in> set (trace (fst (validCasts W cs st)))"
proof (induction cs arbitrary: st)
  case Nil
  then show ?case by simp
next
  case (Cons d cs)
  let ?st1 = "emit (Logger Log (Msg_cast_checks (ncast_hash d) (isUnprocessed st d)
                        (isRecent W st d) (ncast_parent_hash d \<noteq> None))) st"
  have f: "fst (validCasts W (d # cs) st) = fst (validCasts W cs ?st1)"
    by (simp add: Let_def split: prod.splits)
  show ?case
  proof (cases "c = d")
    case True
    have "Logger Log (Msg_cast_checks (ncast_hash d) (isUnprocessed st d)
                        (isRecent W st d) (ncast_parent_hash d \<noteq> None)) \<in> set (trace ?st1)"
      by (simp add: emit_def)
    then have "Logger Log (Msg_cast_checks (ncast_hash d) (isUnprocessed st d)
                        (isRecent W st d) (ncast_parent_hash d \<noteq> None))
                 \<in> set (trace (fst (validCasts W cs ?st1)))"
      using validCasts_trace_mono[of ?st1 W cs] by blast
    then show ?thesis unfolding f True by blast
  next
    case False
    with Cons.prems have "c \<in> set cs" by simp
    from Cons.IH[OF this, of ?st1] show ?thesis unfolding f .
  qed
qed

lemma validCasts_sound:
  "validCasts W cs st = (st', vs) \<Longrightarrow> v \<in> set vs \<Longrightarrow>
     v \<in> set cs \<and> (\<exists>st0. keepCast W st0 v \<and> lastProcessedCasts st0 = lastProcessedCasts st)"
proof (induction cs arbitrary: st st' vs)
  case Nil
  then show ?case by simp
next
  case (Cons c cs)
  let ?st1 = "emit (Logger Log (Msg_cast_checks (ncast_hash c) (isUnprocessed st c)
                        (isRecent W st c) (ncast_parent_hash c \<noteq> None))) st"
  obtain st2 ws where r: "validCasts W cs ?st1 = (st2, ws)" by (cases "validCasts W cs ?st1")
  have l: "lastProcessedCasts ?st1 = lastProcessedCasts st" by (simp add: emit_def)
  from Cons.prems(1) r have vs: "vs = (if keepCast W st c then c # ws else ws)" by (simp add: Let_def)
  show ?case
  proof (cases "v \<in> set ws")
    case True
    from Cons.IH[OF r True] l show ?thesis by auto
  next
    case False
    with vs Cons.prems(2) have "v = c" "keepCast W st c" by (auto split: if_splits)
    then show ?thesis by auto
  qed
qed

subsection \<open>Gathering the candidates\<close>

text \<open>
  Claim C4. A fetched cast of a tracked user passes the filter exactly when its hash is
  not in \<open>lastProcessedCasts\<close>, its age (the clock at the moment it is examined
  minus its timestamp) is below 24 hours, and its text is longer than 10 characters. With
  a clock that reads \<open>now\<close> throughout, the filter keeps exactly the casts with these
  three properties, in order. A cast 24 hours and one second old is dropped; one 23 hours
  and 59 minutes old, unprocessed and long enough, is kept. The reply status does not
  enter the decision; it is written to the log for every cast examined.
\<close>
theorem filter_rule:
  "(keepCast W st c \<longleftrightarrow>
      ncast_hash c \<notin> lastProcessedCasts st \<and>
      (\<exists>t. ncast_timestamp c = Some t \<and> Date_now W (trace st) - t < 24 * 60 * 60 * 1000) \<and>
      10 < length (ncast_text c))
   \<and> ((\<forall>tr. Date_now W tr = now) \<longrightarrow>
        snd (validCasts W cs st) =
          filter (\<lambda>c. ncast_hash c \<notin> lastProcessedCasts st \<and>
                      (\<exists>t. ncast_timestamp c = Some t \<and> now - t < 24 * 60 * 60 * 1000) \<and>
                      10 < length (ncast_text c)) cs)
   \<and> (ncast_timestamp c = Some (Date_now W (trace st) - (24 * 60 * 60 * 1000 + 1000)) \<longrightarrow>
        \<not> keepCast W st c)
   \<and> (ncast_timestamp c = Some (Date_now W (trace st) - (23 * 60 + 59) * 60 * 1000) \<and>
        ncast_hash c \<notin> lastProcessedCasts st \<and> 10 < length (ncast_text c) \<longrightarrow>
        keepCast W st c)
   \<and> keepCast W st (c\<lparr>ncast_parent_hash := p\<rparr>) = keepCast W st c
   \<and> (c \<in> set cs \<longrightarrow>
        (\<exists>u r. Logger Log (Msg_cast_checks (ncast_hash c) u r (ncast_parent_hash c \<noteq> None))
                 \<in> set (trace (fst (validCasts W cs st)))))"
proof -
  have a: "keepCast W st c \<longleftrightarrow>
      ncast_hash c \<notin> lastProcessedCasts st \<and>
      (\<exists>t. ncast_timestamp c = Some t \<and> Date_now W (trace st) - t < 24 * 60 * 60 * 1000) \<and>
      10 < length (ncast_text c)"
    by (auto simp: keepCast_def isUnprocessed_def isRecent_def split: option.splits)
  have b: "keepCast W st (c\<lparr>ncast_parent_hash := p\<rparr>) = keepCast W st c"
    by (simp add: keepCast_def isUnprocessed_def isRecent_def)
  show ?thesis
    using a b validCasts_const_clock[of W now cs st] validCasts_logged[of c cs W st]
    by auto
qed

theorem filter_rule_witness:
  "\<not> keepCast ex_world (ex_state\<lparr>lastProcessedCasts := {''done''}\<rparr>)
        (ex_ncast ''old'' (Some 13599000) ''a day and a second'' None)
   \<and> keepCast ex_world (ex_state\<lparr>lastProcessedCasts := {''done''}\<rparr>)
        (ex_ncast ''new'' (Some 13660000) ''a minute less than a day'' (Some ''parent''))
   \<and> snd (validCasts ex_world
        [ex_ncast ''old'' (Some 13599000) ''a day and a second'' None,
         ex_ncast ''new'' (Some 13660000) ''a minute less than a day'' (Some ''parent''),
         ex_ncast ''short'' (Some 99999000) ''ten chars.'' None,
         ex_ncast ''done'' (Some 99999000) ''answered before'' None]
        (ex_state\<lparr>lastProcessedCasts := {''done''}\<rparr>)) =
       [ex_ncast ''new'' (Some 13660000) ''a minute less than a day'' (Some ''parent'')]"
proof -
  let ?st = "ex_state\<lparr>lastProcessedCasts := {''done''}\<rparr>"
  let ?old = "ex_ncast ''old'' (Some 13599000) ''a day and a second'' None"
  let ?new = "ex_ncast ''new'' (Some 13660000) ''a minute less than a day'' (Some ''parent'')"
  let ?cs = "[?old, ?new, ex_ncast ''short'' (Some 99999000) ''ten chars.'' None,
              ex_ncast ''done'' (Some 99999000) ''answered before'' None]"
  have clock: "\<forall>tr. Date_now ex_world tr = 100000000" by (simp add: ex_world_def)
  have old: "ncast_timestamp ?old = Some (Date_now ex_world (trace ?st) - (24 * 60 * 60 * 1000 + 1000))"
    by (simp add: ex_world_def ex_ncast_def)
  have new: "ncast_timestamp ?new = Some (Date_now ex_world (trace ?st) - (23 * 60 + 59) * 60 * 1000)
      \<and> ncast_hash ?new \<notin> lastProcessedCasts ?st \<and> 10 < length (ncast_text ?new)"
    by (simp add: ex_world_def ex_ncast_def ex_state_def)
  note t1 = filter_rule[of ex_world ?st ?old 100000000 ?cs None]
  note t2 = filter_rule[of ex_world ?st ?new 100000000 ?cs None]
  have a: "\<not> keepCast ex_world ?st ?old"
    using t1[THEN conjunct2, THEN conjunct2, THEN conjunct1] old by (rule mp)
  have b: "keepCast ex_world ?st ?new"
    using t2[THEN conjunct2, THEN conjunct2, THEN conjunct2, THEN conjunct1] new by (rule mp)
  have "snd (validCasts ex_world ?cs ?st) =
          filter (\<lambda>c. ncast_hash c \<notin> lastProcessedCasts ?st \<and>
                      (\<exists>t. ncast_timestamp c = Some t \<and> 100000000 - t < 24 * 60 * 60 * 1000) \<and>
                      10 < length (ncast_text c)) ?cs"
    using t1[THEN conjunct2, THEN conjunct1] clock by (rule mp)
  also have "\<dots> = [?new]" by (simp add: ex_ncast_def ex_state_def)
  finally show ?thesis using a b by simp
qed


lemma quiet_refl [simp]: "quiet st st" by (simp add: quiet_def)

lemma quiet_trans: "quiet a b \<Longrightarrow> quiet b c \<Longrightarrow> quiet a c" by (simp add: quiet_def)

lemma quiet_emit: "\<not> is_reply_call ev \<Longrightarrow> quiet st (emit ev st)"
  by (simp add: quiet_def emit_def)

lemma quiet_sendCast: "quiet st st' \<Longrightarrow> filter is_sendCast (trace st') = filter is_sendCast (trace st)"
  by (rule filter_sendCast_reply) (simp add: quiet_def)

lemma validCasts_quiet: "validCasts W cs st = (st', vs) \<Longrightarrow> quiet st st'"
proof (induction cs arbitrary: st st' vs)
  case Nil
  then show ?case by simp
next
  case (Cons c cs)
  let ?st1 = "emit (Logger Log (Msg_cast_checks (ncast_hash c) (isUnprocessed st c)
                        (isRecent W st c) (ncast_parent_hash c \<noteq> None))) st"
  obtain st2 ws where r: "validCasts W cs ?st1 = (st2, ws)" by (cases "validCasts W cs ?st1")
  with Cons.prems have e: "st' = st2" by (simp add: Let_def)
  have q1: "quiet st ?st1" by (simp add: quiet_emit)
  show ?case unfolding e by (rule quiet_trans[OF q1 Cons.IH[OF r]])
qed

lemma processCasts_quiet: "processCasts W vs st = (st', r) \<Longrightarrow> quiet st st'"
proof (induction vs arbitrary: st st' r)
  case Nil
  then show ?case by (simp add: ret_def)
next
  case (Cons v vs)
  let ?st1 = "emit (Call_getProfile (ncast_author_fid v)) st"
  have q1: "quiet st ?st1" by (simp add: quiet_emit)
  show ?case
  proof (cases "getProfile W (trace st) (ncast_author_fid v)")
    case (Inl e)
    with Cons.prems have "st' = ?st1" by (simp add: act_defs)
    with q1 show ?thesis by simp
  next
    case (Inr profile)
    obtain st2 r2 where r: "processCasts W vs ?st1 = (st2, r2)" by (cases "processCasts W vs ?st1")
    with Cons.prems Inr have e: "st' = st2" by (auto simp: act_defs split: sum.splits)
    show ?thesis unfolding e by (rule quiet_trans[OF q1 Cons.IH[OF r]])
  qed
qed

lemma processCasts_shape:
  "processCasts W vs st = (st', Inr ps) \<Longrightarrow> list_all2 (\<lambda>v p. \<exists>pr. p = toCast v pr) vs ps"
proof (induction vs arbitrary: st st' ps)
  case Nil
  then show ?case by (simp add: ret_def)
next
  case (Cons v vs)
  let ?st1 = "emit (Call_getProfile (ncast_author_fid v)) st"
  from Cons.prems obtain profile where p: "getProfile W (trace st) (ncast_author_fid v) = Inr profile"
    by (cases "getProfile W (trace st) (ncast_author_fid v)") (auto simp: act_defs)
  obtain st2 r2 where r: "processCasts W vs ?st1 = (st2, r2)" by (cases "processCasts W vs ?st1")
  with Cons.prems p obtain rest where rest: "r2 = Inr rest" "ps = toCast v profile # rest"
    by (cases r2) (auto simp: act_defs)
  from Cons.IH[OF r[unfolded rest(1)]] rest show ?case by auto
qed

lemma Map_set_keys:
  "map fst (Map_set es k v) = (if k \<in> set (map fst es) then map fst es else map fst es @ [k])"
  by (induction es k v rule: Map_set.induct) auto

lemma Map_set_entries: "set (Map_set es k v) \<subseteq> insert (k, v) (set es)"
  by (induction es k v rule: Map_set.induct) auto

lemma Map_set_distinct: "distinct (map fst es) \<Longrightarrow> distinct (map fst (Map_set es k v))"
  by (simp add: Map_set_keys)

lemma fetchUserCasts_quiet: "fetchUserCasts W agentFid username st = (st', r) \<Longrightarrow> quiet st st'"
proof -
  assume h: "fetchUserCasts W agentFid username st = (st', r)"
  let ?st1 = "emit (Call_lookupUserByUsername username agentFid) st"
  have q1: "quiet st ?st1" by (simp add: quiet_emit)
  show ?thesis
  proof (cases "lookupUserByUsername W (trace st) username agentFid")
    case (Inl e)
    with h have "st' = ?st1" by (simp add: fetchUserCasts_def act_defs)
    with q1 show ?thesis by simp
  next
    case (Inr user)
    show ?thesis
    proof (cases user)
      case None
      with h Inr have "st' = emit (Logger Error (Msg_user_not_found username)) ?st1"
        by (simp add: fetchUserCasts_def act_defs)
      then show ?thesis by (simp add: quiet_def emit_def)
    next
      case (Some userFid)
      let ?st2 = "emit (Call_fetchCastsForUser userFid agentFid 10 False) ?st1"
      have q2: "quiet st ?st2" by (simp add: quiet_def emit_def)
      show ?thesis
      proof (cases "fetchCastsForUser W (trace ?st1) userFid agentFid 10 False")
        case (Inl e)
        with h Inr Some have "st' = ?st2" by (simp add: fetchUserCasts_def act_defs)
        with q2 show ?thesis by simp
      next
        case r2: (Inr userCasts)
        obtain st3 valid where v: "validCasts W userCasts ?st2 = (st3, valid)"
          by (cases "validCasts W userCasts ?st2")
        obtain st4 r4 where p: "processCasts W valid st3 = (st4, r4)"
          by (cases "processCasts W valid st3")
        from h Inr Some r2 v p have e: "st' = st4"
          by (auto simp: fetchUserCasts_def act_defs split: sum.splits)
        show ?thesis unfolding e
          by (rule quiet_trans[OF quiet_trans[OF q2 validCasts_quiet[OF v]] processCasts_quiet[OF p]])
      qed
    qed
  qed
qed

lemma fetchUserCasts_shape:
  assumes h: "fetchUserCasts W agentFid username st = (st', Inr (Some (valid, processed)))"
  shows "list_all2 (\<lambda>v p. \<exists>pr. p = toCast v pr) valid processed \<and>
         (\<forall>v\<in>set valid. \<exists>st0. keepCast W st0 v \<and> lastProcessedCasts st0 = lastProcessedCasts st)"
proof -
  let ?st1 = "emit (Call_lookupUserByUsername username agentFid) st"
  from h obtain userFid where u: "lookupUserByUsername W (trace st) username agentFid = Inr (Some userFid)"
    by (cases "lookupUserByUsername W (trace st) username agentFid")
       (auto simp: fetchUserCasts_def act_defs split: option.splits)
  let ?st2 = "emit (Call_fetchCastsForUser userFid agentFid 10 False) ?st1"
  from h u obtain userCasts where c: "fetchCastsForUser W (trace ?st1) userFid agentFid 10 False = Inr userCasts"
    by (cases "fetchCastsForUser W (trace ?st1) userFid agentFid 10 False")
       (auto simp: fetchUserCasts_def act_defs)
  obtain st3 vs where v: "validCasts W userCasts ?st2 = (st3, vs)"
    by (cases "validCasts W userCasts ?st2")
  obtain st4 r4 where p: "processCasts W vs st3 = (st4, r4)"
    by (cases "processCasts W vs st3")
  from h u c v p have e: "vs = valid" "r4 = Inr processed"
    by (auto simp: fetchUserCasts_def act_defs split: sum.splits)
  have l: "lastProcessedCasts ?st2 = lastProcessedCasts st" by (simp add: emit_def)
  from validCasts_sound[OF v] l e have
    "\<forall>v\<in>set valid. \<exists>st0. keepCast W st0 v \<and> lastProcessedCasts st0 = lastProcessedCasts st"
    by auto
  with processCasts_shape[OF p[unfolded e]] show ?thesis by simp
qed


lemma fetchUser_quiet: "fetchUser W agentFid username cbu st = (st', cbu') \<Longrightarrow> quiet st st'"
proof -
  assume h: "fetchUser W agentFid username cbu st = (st', cbu')"
  obtain st1 r where f: "fetchUserCasts W agentFid username st = (st1, r)"
    by (cases "fetchUserCasts W agentFid username st")
  note q = fetchUserCasts_quiet[OF f]
  have "st' = st1 \<or> (\<exists>lv m. st' = emit (Logger lv m) st1)"
    using h f
    by (auto simp: fetchUser_def split: sum.splits option.splits prod.splits list.splits if_splits)
  then have "quiet st1 st'" by (auto simp: quiet_emit)
  with q show ?thesis by (rule quiet_trans)
qed

lemma fetchUser_entries:
  assumes h: "fetchUser W agentFid username cbu st = (st', cbu')"
  shows "cbu' = cbu \<or>
         (\<exists>valid processed. cbu' = Map_set cbu username processed \<and> processed \<noteq> [] \<and>
            list_all2 (\<lambda>v p. \<exists>pr. p = toCast v pr) valid processed \<and>
            (\<forall>v\<in>set valid. \<exists>st0. keepCast W st0 v \<and> lastProcessedCasts st0 = lastProcessedCasts st))"
proof -
  obtain st1 r where f: "fetchUserCasts W agentFid username st = (st1, r)"
    by (cases "fetchUserCasts W agentFid username st")
  show ?thesis
  proof (cases r)
    case (Inl e)
    with h f show ?thesis by (simp add: fetchUser_def)
  next
    case (Inr x)
    show ?thesis
    proof (cases x)
      case None
      with h f Inr show ?thesis by (simp add: fetchUser_def)
    next
      case (Some vp)
      obtain valid processed where vp: "vp = (valid, processed)" by (cases vp)
      note sh = fetchUserCasts_shape[OF f[unfolded Inr Some vp]]
      show ?thesis
      proof (cases "processed = []")
        case True
        with h f Inr Some vp show ?thesis by (simp add: fetchUser_def)
      next
        case False
        with h f Inr Some vp have "cbu' = Map_set cbu username processed"
          by (auto simp: fetchUser_def split: list.splits option.splits)
        with sh False show ?thesis by blast
      qed
    qed
  qed
qed


lemma list_all2_pre_image: "list_all2 R xs ys \<Longrightarrow> y \<in> set ys \<Longrightarrow> \<exists>x\<in>set xs. R x y"
  by (induction rule: list_all2_induct) auto

lemma toCast_fields [simp]:
  "cast_hash (toCast v pr) = ncast_hash v" "cast_text (toCast v pr) = ncast_text v"
  "cast_timestamp (toCast v pr) = ncast_timestamp v" "cast_profile (toCast v pr) = pr"
  "cast_authorFid (toCast v pr) = ncast_author_fid v"
  by (simp_all add: toCast_def)

lemma fetchUser_inv:
  assumes h: "fetchUser W agentFid username cbu st = (st', cbu')"
    and d: "distinct (map fst cbu)"
    and g: "\<forall>(u, casts)\<in>set cbu. u \<in> U \<and> casts \<noteq> [] \<and>
              (\<forall>c\<in>set casts. cast_hash c \<notin> lastProcessedCasts st \<and> 10 < length (cast_text c) \<and>
                 (\<exists>t tr. cast_timestamp c = Some t \<and> Date_now W tr - t < 24 * 60 * 60 * 1000))"
    and u: "username \<in> U"
  shows "distinct (map fst cbu') \<and>
         (\<forall>(u, casts)\<in>set cbu'. u \<in> U \<and> casts \<noteq> [] \<and>
              (\<forall>c\<in>set casts. cast_hash c \<notin> lastProcessedCasts st \<and> 10 < length (cast_text c) \<and>
                 (\<exists>t tr. cast_timestamp c = Some t \<and> Date_now W tr - t < 24 * 60 * 60 * 1000)))"
proof -
  from fetchUser_entries[OF h] show ?thesis
  proof
    assume "cbu' = cbu"
    with d g show ?thesis by simp
  next
    assume "\<exists>valid processed. cbu' = Map_set cbu username processed \<and> processed \<noteq> [] \<and>
            list_all2 (\<lambda>v p. \<exists>pr. p = toCast v pr) valid processed \<and>
            (\<forall>v\<in>set valid. \<exists>st0. keepCast W st0 v \<and> lastProcessedCasts st0 = lastProcessedCasts st)"
    then obtain valid processed where
      c: "cbu' = Map_set cbu username processed" and ne: "processed \<noteq> []" and
      sh: "list_all2 (\<lambda>v p. \<exists>pr. p = toCast v pr) valid processed" and
      k: "\<forall>v\<in>set valid. \<exists>st0. keepCast W st0 v \<and> lastProcessedCasts st0 = lastProcessedCasts st"
      by blast
    have new: "\<forall>c\<in>set processed. cast_hash c \<notin> lastProcessedCasts st \<and> 10 < length (cast_text c) \<and>
                 (\<exists>t tr. cast_timestamp c = Some t \<and> Date_now W tr - t < 24 * 60 * 60 * 1000)"
    proof
      fix p assume "p \<in> set processed"
      from list_all2_pre_image[OF sh this] obtain v pr where v: "v \<in> set valid" "p = toCast v pr" by blast
      from k v(1) obtain st0 where s: "keepCast W st0 v" "lastProcessedCasts st0 = lastProcessedCasts st"
        by blast
      from s(1) obtain t where "ncast_timestamp v = Some t" "Date_now W (trace st0) - t < 24 * 60 * 60 * 1000"
        by (auto simp: keepCast_def isRecent_def split: option.splits)
      then have "\<exists>t tr. cast_timestamp p = Some t \<and> Date_now W tr - t < 24 * 60 * 60 * 1000"
        using v(2) by auto
      moreover have "cast_hash p \<notin> lastProcessedCasts st \<and> 10 < length (cast_text p)"
        using s v(2) by (simp add: keepCast_def isUnprocessed_def)
      ultimately show "cast_hash p \<notin> lastProcessedCasts st \<and> 10 < length (cast_text p) \<and>
                 (\<exists>t tr. cast_timestamp p = Some t \<and> Date_now W tr - t < 24 * 60 * 60 * 1000)"
        by simp
    qed
    have "distinct (map fst cbu')" using c d by (simp add: Map_set_distinct)
    moreover have "\<forall>(u, casts)\<in>set cbu'. u \<in> U \<and> casts \<noteq> [] \<and>
              (\<forall>c\<in>set casts. cast_hash c \<notin> lastProcessedCasts st \<and> 10 < length (cast_text c) \<and>
                 (\<exists>t tr. cast_timestamp c = Some t \<and> Date_now W tr - t < 24 * 60 * 60 * 1000))"
    proof
      fix e assume "e \<in> set cbu'"
      with c Map_set_entries[of cbu username processed]
      have "e = (username, processed) \<or> e \<in> set cbu" by auto
      then show "case e of (u, casts) \<Rightarrow> u \<in> U \<and> casts \<noteq> [] \<and>
              (\<forall>c\<in>set casts. cast_hash c \<notin> lastProcessedCasts st \<and> 10 < length (cast_text c) \<and>
                 (\<exists>t tr. cast_timestamp c = Some t \<and> Date_now W tr - t < 24 * 60 * 60 * 1000))"
        using g new ne u by auto
    qed
    ultimately show ?thesis by simp
  qed
qed

lemma fetchUsers_quiet: "fetchUsers W agentFid us cbu st = (st', cbu') \<Longrightarrow> quiet st st'"
proof (induction us arbitrary: cbu st)
  case Nil
  then show ?case by simp
next
  case (Cons u us)
  obtain st1 cbu1 where f: "fetchUser W agentFid u cbu st = (st1, cbu1)"
    by (cases "fetchUser W agentFid u cbu st")
  with Cons.prems have "fetchUsers W agentFid us cbu1 st1 = (st', cbu')" by simp
  from Cons.IH[OF this] show ?case by (rule quiet_trans[OF fetchUser_quiet[OF f]])
qed

lemma fetchUsers_inv:
  assumes "fetchUsers W agentFid us cbu st = (st', cbu')"
    and "distinct (map fst cbu)"
    and "\<forall>(u, casts)\<in>set cbu. u \<in> U \<and> casts \<noteq> [] \<and>
              (\<forall>c\<in>set casts. cast_hash c \<notin> P \<and> 10 < length (cast_text c) \<and>
                 (\<exists>t tr. cast_timestamp c = Some t \<and> Date_now W tr - t < 24 * 60 * 60 * 1000))"
    and "set us \<subseteq> U" and "lastProcessedCasts st = P"
  shows "distinct (map fst cbu') \<and>
         (\<forall>(u, casts)\<in>set cbu'. u \<in> U \<and> casts \<noteq> [] \<and>
              (\<forall>c\<in>set casts. cast_hash c \<notin> P \<and> 10 < length (cast_text c) \<and>
                 (\<exists>t tr. cast_timestamp c = Some t \<and> Date_now W tr - t < 24 * 60 * 60 * 1000)))"
  using assms
proof (induction us arbitrary: cbu st)
  case Nil
  then show ?case by simp
next
  case (Cons u us)
  obtain st1 cbu1 where f: "fetchUser W agentFid u cbu st = (st1, cbu1)"
    by (cases "fetchUser W agentFid u cbu st")
  with Cons.prems(1) have r: "fetchUsers W agentFid us cbu1 st1 = (st', cbu')" by simp
  have l: "lastProcessedCasts st1 = P" using fetchUser_quiet[OF f] Cons.prems(5) by (simp add: quiet_def)
  have uU: "u \<in> U" "set us \<subseteq> U" using Cons.prems(4) by auto
  note i = fetchUser_inv[OF f Cons.prems(2) Cons.prems(3)[folded Cons.prems(5)] uU(1)]
  show ?case
    using Cons.IH[OF r _ _ uU(2) l] i unfolding Cons.prems(5) by blast
qed


text \<open>
  Claim C2, as amended. When \<open>sendCast\<close> resolves and every write to the store
  succeeds, the callback adds the cast's hash to \<open>lastProcessedCasts\<close> and appends
  one record to the store for every element of the result, in order. The first record
  carries the action tag of the generated content; the others are stored as
  \<open>sendCast\<close> returned them.
\<close>
theorem dispatch_success_records:
  assumes send: "sendCast W (trace st) (signerUuid M) (cast_profile cast)
                   (withInReplyTo memoryId content) (mem_roomId memory) (replyTarget cast) = Inr results"
    and writes: "\<forall>tr m. createMemory_rejects W tr m = None"
  shows "cast_hash cast \<in> lastProcessedCasts (fst (callback M W cast memory memoryId content st))
         \<and> store (fst (callback M W cast memory memoryId content st)) =
             store st @ (case results of [] \<Rightarrow> []
                         | r # rs \<Rightarrow> withAction (content_action content) (sent_memory r) # map sent_memory rs)
         \<and> length (store (fst (callback M W cast memory memoryId content st))) =
             length (store st) + length results
         \<and> (results \<noteq> [] \<longrightarrow>
              content_action (mem_content (store (fst (callback M W cast memory memoryId content st))
                 ! length (store st))) = content_action content)"
proof (cases results)
  case Nil
  from callback_empty[OF send[unfolded Nil]] Nil show ?thesis by simp
next
  case (Cons r rs)
  from callback_sent[OF send[unfolded Cons] writes] Cons show ?thesis
    by (simp add: withAction_def nth_append)
qed

theorem dispatch_success_records_witness:
  "store (fst (callback ex_manager ex_split_world ex_cast ex_memory ''abc-agent'' ex_reply ex_state)) =
     [withAction (Some ''REPLY'') (sent_memory (ex_sent ''r1'' (ex_reply\<lparr>content_inReplyTo := Some ''abc-agent''\<rparr>) ''0xabc-agent'')),
      sent_memory (ex_sent ''r2'' (ex_reply\<lparr>content_inReplyTo := Some ''abc-agent''\<rparr>) ''0xabc-agent'')]
   \<and> ''abc'' \<in> lastProcessedCasts (fst (callback ex_manager ex_split_world ex_cast ex_memory ''abc-agent'' ex_reply ex_state))"
proof -
  have send: "sendCast ex_split_world (trace ex_state) (signerUuid ex_manager) (cast_profile ex_cast)
                   (withInReplyTo ''abc-agent'' ex_reply) (mem_roomId ex_memory) (replyTarget ex_cast) =
              Inr [ex_sent ''r1'' (ex_reply\<lparr>content_inReplyTo := Some ''abc-agent''\<rparr>) ''0xabc-agent'',
                   ex_sent ''r2'' (ex_reply\<lparr>content_inReplyTo := Some ''abc-agent''\<rparr>) ''0xabc-agent'']"
    by (simp add: ex_split_world_def ex_world_def withInReplyTo_def truthy_def ex_reply_def ex_memory_def)
  have writes: "\<forall>tr m. createMemory_rejects ex_split_world tr m = None"
    by (simp add: ex_split_world_def ex_world_def)
  from dispatch_success_records[OF send writes] show ?thesis
    by (simp add: ex_state_def ex_cast_def ex_reply_def)
qed

text \<open>
  Claim C2 as stated fails: when the dispatch returns two records without an action tag
  for a reply tagged \<open>REPLY\<close>, only the first stored record carries the tag.
\<close>
theorem action_tag_counterexample:
  "content_action ex_reply = Some ''REPLY''
   \<and> map (\<lambda>m. content_action (mem_content m))
        (store (fst (callback ex_manager ex_split_world ex_cast ex_memory ''abc-agent'' ex_reply ex_state))) =
       [Some ''REPLY'', None]"
  by (simp add: callback_def callback_try_def restoreAction_def createMemory_def withInReplyTo_def
        truthy_def replyTarget_def act_defs Let_def
        ex_split_world_def ex_world_def ex_manager_def ex_config_def ex_cast_def ex_memory_def
        ex_reply_def ex_sent_def ex_state_def ex_alice_def ex_agent_def)

lemma prepareReply_frame:
  assumes "prepareReply M W agent cast memory thread st = (st', r)"
  shows "lastProcessedCasts st' = lastProcessedCasts st \<and>
         timeout st' = timeout st \<and>
         lastInteractionTimestamp st' = lastInteractionTimestamp st \<and>
         filter is_sendCast (trace st') = filter is_sendCast (trace st) \<and>
         (store st' = store st \<or>
          store st' = store st @ [createCastMemory M (mem_roomId memory)
             (stringToUuid M (numberToString M (cast_authorFid cast))) cast])"
  using assms
  by (auto simp: prepareReply_def act_defs getMemoryById_def createMemory_def Let_def
           split: sum.splits prod.splits option.splits if_splits)

lemma prepareReply_ok:
  assumes "prepareReply M W agent cast memory thread st = (st', Inr (mid, ps, rc))"
  shows "mid = castUuid M (agentId M) (cast_hash cast) \<and>
         find (\<lambda>m. mem_id m = Some mid) (store st') \<noteq> None \<and>
         (\<exists>tr ctx. trace st' = tr @ [Call_generateMessageResponse ctx] \<and>
                   generateMessageResponse W tr ctx = Inr rc)"
  using assms
  by (auto simp: prepareReply_def act_defs getMemoryById_def createMemory_def Let_def
                 createCastMemory_def find_append_new
           split: sum.splits prod.splits option.splits if_splits)

lemma processCandidate_gate:
  assumes "find (\<lambda>m. mem_id m = Some (castUuid M (agentId M) (cast_hash cast))) (store st) \<noteq> None"
  shows "processCandidate M W agent cast st =
           (emit (Call_getMemoryById (castUuid M (agentId M) (cast_hash cast))) st,
            void (getMemoryById_rejects W (trace st) (castUuid M (agentId M) (cast_hash cast))))"
  using assms
  by (auto simp: processCandidate_def getMemoryById_def act_defs Let_def split: option.splits)

lemma processCandidate_cases:
  assumes "processCandidate M W agent cast st = (st', r)"
  shows "quiet st st' \<or>
         (find (\<lambda>m. mem_id m = Some (castUuid M (agentId M) (cast_hash cast))) (store st) = None \<and>
          (\<exists>st0 thread r0. quiet st st0 \<and>
             handleCast M W agent cast (candidateMemory M cast) thread st0 = (st', r0)))"
proof -
  let ?id = "castUuid M (agentId M) (cast_hash cast)"
  let ?st1 = "emit (Call_getMemoryById ?id) st"
  have q1: "quiet st ?st1" by (simp add: quiet_emit)
  show ?thesis
  proof (cases "getMemoryById_rejects W (trace st) ?id = None \<and> find (\<lambda>m. mem_id m = Some ?id) (store st) = None")
    case False
    with assms have "st' = ?st1"
      by (auto simp: processCandidate_def getMemoryById_def act_defs Let_def split: option.splits)
    with q1 show ?thesis by simp
  next
    case True
    let ?ev2 = "Call_ensureConnection (stringToUuid M (numberToString M (cast_authorFid cast)))
                  (stringToUuid M (toHex M (cast_hash cast) @ ''-'' @ agentId M))
                  (profile_username (cast_profile cast)) (profile_name (cast_profile cast)) ''farcaster''"
    let ?st2 = "emit ?ev2 ?st1"
    have q2: "quiet st ?st2" by (simp add: quiet_def emit_def)
    let ?st3 = "emit (Call_buildConversationThread cast) ?st2"
    have q3: "quiet st ?st3" by (simp add: quiet_def emit_def)
    show ?thesis
    proof (cases "ensureConnection W (trace ?st1) (stringToUuid M (numberToString M (cast_authorFid cast)))
                  (stringToUuid M (toHex M (cast_hash cast) @ ''-'' @ agentId M))
                  (profile_username (cast_profile cast)) (profile_name (cast_profile cast)) ''farcaster''")
      case (Some e)
      with assms True have "st' = ?st2"
        by (auto simp: processCandidate_def getMemoryById_def act_defs Let_def)
      with q2 show ?thesis by simp
    next
      case None
      show ?thesis
      proof (cases "buildConversationThread W (trace ?st2) cast")
        case (Inl e)
        with assms True None have "st' = ?st3"
          by (auto simp: processCandidate_def getMemoryById_def act_defs Let_def)
        with q3 show ?thesis by simp
      next
        case (Inr thread)
        obtain st4 r4 where h: "handleCast M W agent cast (candidateMemory M cast) thread ?st3 = (st4, r4)"
          by (cases "handleCast M W agent cast (candidateMemory M cast) thread ?st3")
        with assms True None Inr have "st' = st4"
          by (auto simp: processCandidate_def getMemoryById_def act_defs Let_def candidateMemory_def
                split: sum.splits)
        with h q3 True show ?thesis by blast
      qed
    qed
  qed
qed

lemma inboundRecord_candidate:
  "createCastMemory M (mem_roomId (candidateMemory M cast))
     (stringToUuid M (numberToString M (cast_authorFid cast))) cast = inboundRecord M cast"
  by (simp add: candidateMemory_def inboundRecord_def)

lemma emit_fields [simp]:
  "store (emit ev st) = store st" "lastProcessedCasts (emit ev st) = lastProcessedCasts st"
  "timeout (emit ev st) = timeout st" "lastInteractionTimestamp (emit ev st) = lastInteractionTimestamp st"
  "trace (emit ev st) = trace st @ [ev]"
  by (simp_all add: emit_def)

lemma handleCast_dry_frame:
  assumes dry: "dry_run M" and h: "handleCast M W agent cast memory thread st = (st', r)"
  shows "lastProcessedCasts st' = lastProcessedCasts st \<and> timeout st' = timeout st \<and>
         lastInteractionTimestamp st' = lastInteractionTimestamp st \<and>
         filter is_sendCast (trace st') = filter is_sendCast (trace st) \<and>
         (store st' = store st \<or>
          store st' = store st @ [createCastMemory M (mem_roomId memory)
             (stringToUuid M (numberToString M (cast_authorFid cast))) cast])"
proof -
  have "\<exists>st1. (st' = st1 \<or> (\<exists>m. st' = emit (Logger Info m) st1)) \<and>
          lastProcessedCasts st1 = lastProcessedCasts st \<and> timeout st1 = timeout st \<and>
          lastInteractionTimestamp st1 = lastInteractionTimestamp st \<and>
          filter is_sendCast (trace st1) = filter is_sendCast (trace st) \<and>
          (store st1 = store st \<or>
           store st1 = store st @ [createCastMemory M (mem_roomId memory)
             (stringToUuid M (numberToString M (cast_authorFid cast))) cast])"
  proof (cases "profile_fid (cast_profile cast) = profile_fid agent")
    case True
    have "st' = emit (Logger Info (Msg_skip_self (cast_hash cast))) st"
      using h unfolding handleCast_self[OF True] by simp
    then show ?thesis by blast
  next
    case ns: False
    show ?thesis
    proof (cases "content_text (mem_content memory) = []")
      case True
      have "st' = emit (Logger Info (Msg_skip_no_text (cast_hash cast))) st"
        using h unfolding handleCast_no_text[OF ns True] by simp
      then show ?thesis by blast
    next
      case nt: False
      obtain st1 r1 where p: "prepareReply M W agent cast memory thread st = (st1, r1)"
        by (cases "prepareReply M W agent cast memory thread st")
      note f = prepareReply_frame[OF p]
      have "st' = st1 \<or> (\<exists>m. st' = emit (Logger Info m) st1)"
      proof (cases r1)
        case (Inl e)
        have "st' = st1" using h unfolding handleCast_unprepared[OF ns nt p[unfolded Inl]] by simp
        then show ?thesis by simp
      next
        case (Inr x)
        obtain mid ps rc where x: "x = (mid, ps, rc)" by (cases x)
        have rs: "respond M W cast memory mid ps rc st1 = (st', r)"
          using h unfolding handleCast_prepared[OF ns nt p[unfolded Inr x]] .
        show ?thesis
        proof (cases "content_text rc = []")
          case True
          have "st' = st1" using rs unfolding respond_empty[OF True] by simp
          then show ?thesis by simp
        next
          case False
          have "st' = emit (Logger Info (Msg_dry_run (cast_hash cast) (content_text rc))) st1"
            using rs unfolding respond_dry[OF dry False] by simp
          then show ?thesis by blast
        qed
      qed
      with f show ?thesis by blast
    qed
  qed
  then obtain st1 where e: "st' = st1 \<or> (\<exists>m. st' = emit (Logger Info m) st1)"
    and f1: "lastProcessedCasts st1 = lastProcessedCasts st" "timeout st1 = timeout st"
          "lastInteractionTimestamp st1 = lastInteractionTimestamp st"
          "filter is_sendCast (trace st1) = filter is_sendCast (trace st)"
    and f2: "store st1 = store st \<or>
           store st1 = store st @ [createCastMemory M (mem_roomId memory)
             (stringToUuid M (numberToString M (cast_authorFid cast))) cast]"
    by blast
  from e have g: "lastProcessedCasts st' = lastProcessedCasts st1" "timeout st' = timeout st1"
          "lastInteractionTimestamp st' = lastInteractionTimestamp st1"
          "filter is_sendCast (trace st') = filter is_sendCast (trace st1)"
          "store st' = store st1"
    by auto
  show ?thesis unfolding g f1 using f2 by simp
qed

lemma processCandidate_dry_frame:
  assumes dry: "dry_run M" and h: "processCandidate M W agent cast st = (st', r)"
  shows "lastProcessedCasts st' = lastProcessedCasts st \<and> timeout st' = timeout st \<and>
         lastInteractionTimestamp st' = lastInteractionTimestamp st \<and>
         filter is_sendCast (trace st') = filter is_sendCast (trace st) \<and>
         (store st' = store st \<or> store st' = store st @ [inboundRecord M cast])"
proof -
  from processCandidate_cases[OF h] show ?thesis
  proof
    assume q: "quiet st st'"
    from quiet_sendCast[OF q] q show ?thesis by (simp add: quiet_def)
  next
    assume "find (\<lambda>m. mem_id m = Some (castUuid M (agentId M) (cast_hash cast))) (store st) = None \<and>
          (\<exists>st0 thread r0. quiet st st0 \<and>
             handleCast M W agent cast (candidateMemory M cast) thread st0 = (st', r0))"
    then obtain st0 thread r0 where q: "quiet st st0"
      and hc: "handleCast M W agent cast (candidateMemory M cast) thread st0 = (st', r0)" by blast
    from handleCast_dry_frame[OF dry hc, unfolded inboundRecord_candidate] quiet_sendCast[OF q] q
    show ?thesis by (simp add: quiet_def)
  qed
qed






lemma withProfiles_length: "withProfiles W vs = Inr ps \<Longrightarrow> length ps = length vs"
proof (induction vs arbitrary: ps)
  case Nil
  then show ?case by simp
next
  case (Cons v vs)
  then show ?case by (auto split: sum.splits)
qed













lemma selectCasts_quiet: "selectCasts W es st = (st', r) \<Longrightarrow> quiet st st'"
proof (induction es arbitrary: st st' r)
  case Nil
  then show ?case by simp
next
  case (Cons e es)
  obtain username casts where e: "e = (username, casts)" by (cases e)
  show ?case
  proof (cases "casts = []")
    case True
    with Cons e show ?thesis by simp
  next
    case False
    show ?thesis
    proof (cases "pick (Math_floor_random W (trace st) (length casts)) casts")
      case None
      with Cons.prems e False have "st' = emit Call_Math_random st" by simp
      then show ?thesis by (simp add: quiet_emit)
    next
      case (Some c)
      let ?st1 = "emit (Logger Log (Msg_selected username (take 100 (cast_text c)))) (emit Call_Math_random st)"
      have q: "quiet st ?st1" by (simp add: quiet_def)
      obtain st2 r2 where r: "selectCasts W es ?st1 = (st2, r2)" by (cases "selectCasts W es ?st1")
      with Cons.prems e False Some have "st' = st2" by (auto split: sum.splits)
      then show ?thesis using quiet_trans[OF q Cons.IH[OF r]] by simp
    qed
  qed
qed

lemma gatherCandidates_quiet:
  assumes g: "gatherCandidates W config agentFid st = (st', r)"
  shows "quiet st st'"
proof -
  let ?st1 = "emit (Call_getMentions agentFid 10) st"
  have q1: "quiet st ?st1" by (simp add: quiet_emit)
  show ?thesis
  proof (cases "getMentions W (trace st) agentFid 10")
    case (Inl e)
    with g have "st' = ?st1" by (simp add: gatherCandidates_def act_defs)
    with q1 show ?thesis by simp
  next
    case (Inr mentions)
    show ?thesis
    proof (cases "FARCASTER_TARGET_USERS config = []")
      case True
      with g Inr have "st' = ?st1" by (simp add: gatherCandidates_def act_defs)
      with q1 show ?thesis by simp
    next
      case False
      let ?st2 = "emit (Logger Log (Msg_processing_target_users (FARCASTER_TARGET_USERS config))) ?st1"
      have q2: "quiet st ?st2" by (simp add: quiet_def)
      obtain st3 cbu where f: "fetchUsers W agentFid (FARCASTER_TARGET_USERS config) [] ?st2 = (st3, cbu)"
        by (cases "fetchUsers W agentFid (FARCASTER_TARGET_USERS config) [] ?st2")
      obtain st4 r4 where s: "selectCasts W cbu st3 = (st4, r4)" by (cases "selectCasts W cbu st3")
      have "st' = st4" using g Inr False f s
        by (auto simp: gatherCandidates_def act_defs split: sum.splits)
      then show ?thesis
        using quiet_trans[OF quiet_trans[OF q2 fetchUsers_quiet[OF f]] selectCasts_quiet[OF s]] by simp
    qed
  qed
qed

lemma processCandidates_dry_frame:
  assumes dry: "dry_run M"
  shows "processCandidates M W agent cs st = (st', r) \<Longrightarrow>
         lastProcessedCasts st' = lastProcessedCasts st \<and> timeout st' = timeout st \<and>
         lastInteractionTimestamp st' = lastInteractionTimestamp st \<and>
         filter is_sendCast (trace st') = filter is_sendCast (trace st) \<and>
         (\<exists>ins. store st' = store st @ ins \<and> set ins \<subseteq> inboundRecord M ` set cs)"
proof (induction cs arbitrary: st)
  case Nil
  then show ?case by (simp add: ret_def)
next
  case (Cons c cs)
  obtain st1 r1 where p: "processCandidate M W agent c st = (st1, r1)"
    by (cases "processCandidate M W agent c st")
  note f = processCandidate_dry_frame[OF dry p]
  have s1: "\<exists>ins. store st1 = store st @ ins \<and> set ins \<subseteq> inboundRecord M ` set (c # cs)"
  proof -
    from f have "store st1 = store st @ [] \<or> store st1 = store st @ [inboundRecord M c]" by simp
    then show ?thesis by (elim disjE) (rule exI[of _ "[]"], simp, rule exI[of _ "[inboundRecord M c]"], simp)
  qed
  show ?case
  proof (cases r1)
    case (Inl e)
    with Cons.prems p have "st' = st1" by (simp add: bind_def)
    with f s1 show ?thesis by simp
  next
    case (Inr u)
    with Cons.prems p have "processCandidates M W agent cs st1 = (st', r)" by (simp add: bind_def)
    note i = Cons.IH[OF this]
    from i obtain ins2 where i2: "store st' = store st1 @ ins2" "set ins2 \<subseteq> inboundRecord M ` set cs"
      by blast
    from s1 obtain ins1 where i1: "store st1 = store st @ ins1" "set ins1 \<subseteq> inboundRecord M ` set (c # cs)"
      by blast
    have "store st' = store st @ (ins1 @ ins2) \<and> set (ins1 @ ins2) \<subseteq> inboundRecord M ` set (c # cs)"
      using i1 i2 by auto
    then have "\<exists>ins. store st' = store st @ ins \<and> set ins \<subseteq> inboundRecord M ` set (c # cs)"
      by blast
    then show ?thesis using i f by simp
  qed
qed

lemma handleInteractions_run:
  assumes "agentFid_of M \<noteq> 0" and "farcasterConfig M = Some config"
  shows "handleInteractions M W st =
    (case gatherCandidates W config (agentFid_of M) (emit (Logger Log Msg_checking) st) of
       (st1, Inl e) \<Rightarrow> (st1, Inl e)
     | (st1, Inr (mentions, cbu, sel, cands)) \<Rightarrow>
         (case getProfile W (trace st1) (agentFid_of M) of
            Inl e \<Rightarrow> (emit (Call_getProfile (agentFid_of M)) st1, Inl e)
          | Inr agent \<Rightarrow>
              (case processCandidates M W agent cands (emit (Call_getProfile (agentFid_of M)) st1) of
                 (st3, Inl e) \<Rightarrow> (st3, Inl e)
               | (st3, Inr u) \<Rightarrow>
                   (emit (Logger Log (Msg_updated_timestamp (Date_now W (trace st3))))
                      (st3\<lparr>lastInteractionTimestamp := Some (Date_now W (trace st3))\<rparr>), Inr ()))))"
  using assms
  by (simp add: handleInteractions_def bind_def logger_def await_def Let_def
           split: prod.splits sum.splits)

lemma handleInteractions_dry_frame:
  assumes dry: "dry_run M" and h: "handleInteractions M W st = (st', r)"
  shows "lastProcessedCasts st' = lastProcessedCasts st \<and>
         filter is_sendCast (trace st') = filter is_sendCast (trace st) \<and>
         (\<exists>ins. store st' = store st @ ins \<and> (\<forall>m\<in>set ins. \<exists>c. m = inboundRecord M c))"
proof -
  let ?st0 = "emit (Logger Log Msg_checking) st"
  have q0: "quiet st ?st0" by (simp add: quiet_emit)
  have goal_quiet: "lastProcessedCasts s = lastProcessedCasts st \<and>
         filter is_sendCast (trace s) = filter is_sendCast (trace st) \<and>
         (\<exists>ins. store s = store st @ ins \<and> (\<forall>m\<in>set ins. \<exists>c. m = inboundRecord M c))"
    if q: "quiet st s" for s
  proof -
    have "store s = store st @ [] \<and> (\<forall>m\<in>set []. \<exists>c. m = inboundRecord M c)"
      using q by (simp add: quiet_def)
    then have "\<exists>ins. store s = store st @ ins \<and> (\<forall>m\<in>set ins. \<exists>c. m = inboundRecord M c)"
      by (rule exI)
    moreover have "lastProcessedCasts s = lastProcessedCasts st" using q by (simp add: quiet_def)
    ultimately show ?thesis using quiet_sendCast[OF q] by simp
  qed
  show ?thesis
  proof (cases "agentFid_of M = 0")
    case True
    with h have "st' = emit (Logger Info Msg_no_fid) ?st0" by (simp add: handleInteractions_def act_defs)
    then have "quiet st st'" by (simp add: quiet_def)
    then show ?thesis by (rule goal_quiet)
  next
    case nz: False
    then obtain config where cfg: "farcasterConfig M = Some config"
      by (cases "farcasterConfig M") (simp_all add: agentFid_of_def)
    note run = h[unfolded handleInteractions_run[OF nz cfg]]
    obtain st1 r1 where g: "gatherCandidates W config (agentFid_of M) ?st0 = (st1, r1)"
      by (cases "gatherCandidates W config (agentFid_of M) ?st0")
    have q1: "quiet st st1" by (rule quiet_trans[OF q0 gatherCandidates_quiet[OF g]])
    show ?thesis
    proof (cases r1)
      case (Inl e)
      have "st' = st1" using run unfolding g Inl by simp
      then show ?thesis using goal_quiet[OF q1] by simp
    next
      case (Inr x)
      obtain mentions cbu sel cands where x: "x = (mentions, cbu, sel, cands)" by (cases x)
      let ?st2 = "emit (Call_getProfile (agentFid_of M)) st1"
      have q2: "quiet st ?st2" using q1 by (simp add: quiet_def)
      show ?thesis
      proof (cases "getProfile W (trace st1) (agentFid_of M)")
        case (Inl e)
        have "st' = ?st2" using run Inl unfolding g Inr x by simp
        then show ?thesis using goal_quiet[OF q2] by simp
      next
        case agent: (Inr agent)
        obtain st3 r3 where p: "processCandidates M W agent cands ?st2 = (st3, r3)"
          by (cases "processCandidates M W agent cands ?st2")
        note f = processCandidates_dry_frame[OF dry p]
        have e: "lastProcessedCasts st' = lastProcessedCasts st3 \<and>
            filter is_sendCast (trace st') = filter is_sendCast (trace st3) \<and>
            store st' = store st3"
        proof (cases r3)
          case (Inl e)
          have "st' = st3" using run agent p[unfolded Inl] unfolding g \<open>r1 = Inr x\<close> x by simp
          then show ?thesis by simp
        next
          case (Inr u)
          have "st' = emit (Logger Log (Msg_updated_timestamp (Date_now W (trace st3))))
                      (st3\<lparr>lastInteractionTimestamp := Some (Date_now W (trace st3))\<rparr>)"
            using run agent p[unfolded Inr] unfolding g \<open>r1 = Inr x\<close> x by simp
          then show ?thesis by simp
        qed
        from f obtain ins where ins: "store st3 = store ?st2 @ ins" "set ins \<subseteq> inboundRecord M ` set cands"
          by blast
        have s2: "store ?st2 = store st" using q2 by (simp add: quiet_def)
        have "store st' = store st @ ins \<and> (\<forall>m\<in>set ins. \<exists>c. m = inboundRecord M c)"
          using e ins s2 by auto
        then have "\<exists>ins. store st' = store st @ ins \<and> (\<forall>m\<in>set ins. \<exists>c. m = inboundRecord M c)"
          by (rule exI)
        moreover have "lastProcessedCasts st' = lastProcessedCasts st"
          using e f q2 by (simp add: quiet_def)
        moreover have "filter is_sendCast (trace st') = filter is_sendCast (trace st)"
          using e f quiet_sendCast[OF q2] by simp
        ultimately show ?thesis by simp
      qed
    qed
  qed
qed

lemma prepareReply_config:
  "prepareReply (M\<lparr>farcasterConfig := c\<rparr>) W agent cast memory thread st =
   prepareReply M W agent cast memory thread st"
  by (simp add: prepareReply_def createCastMemory_def template_of_def formattedConversation_def Let_def
        cong: if_cong)

subsection \<open>Dry run\<close>

text \<open>
  Claim C6, as amended. With \<open>FARCASTER_DRY_RUN\<close> set, the steps of \<open>handleCast\<close>
  up to and including the generation of the reply do not read the configuration, so
  they run as they would without the flag. When they return a reply, the last call made
  was the generation; a non-empty reply is then logged as the would-be answer and an
  empty one ends the candidate with no log line. In either case the candidate ends
  there. In the round of any candidate and in any whole cycle \<open>sendCast\<close> is never
  called and \<open>lastProcessedCasts\<close> does not change; a candidate's round adds at most
  its inbound record to the store, and a cycle adds inbound records only.
\<close>
theorem dry_run_containment:
  assumes dry: "dry_run M"
  shows "(\<forall>c. prepareReply (M\<lparr>farcasterConfig := c\<rparr>) W agent cast memory thread st =
              prepareReply M W agent cast memory thread st)
   \<and> (\<forall>st1 mid ps rc.
         profile_fid (cast_profile cast) \<noteq> profile_fid agent \<longrightarrow>
         content_text (mem_content memory) \<noteq> [] \<longrightarrow>
         prepareReply M W agent cast memory thread st = (st1, Inr (mid, ps, rc)) \<longrightarrow>
           (\<exists>tr ctx. trace st1 = tr @ [Call_generateMessageResponse ctx] \<and>
                     generateMessageResponse W tr ctx = Inr rc) \<and>
           handleCast M W agent cast memory thread st =
             (if content_text rc = [] then st1
              else emit (Logger Info (Msg_dry_run (cast_hash cast) (content_text rc))) st1,
              Inr None))
   \<and> lastProcessedCasts (fst (processCandidate M W agent cast st)) = lastProcessedCasts st
   \<and> filter is_sendCast (trace (fst (processCandidate M W agent cast st))) =
       filter is_sendCast (trace st)
   \<and> (store (fst (processCandidate M W agent cast st)) = store st \<or>
       store (fst (processCandidate M W agent cast st)) = store st @ [inboundRecord M cast])
   \<and> lastProcessedCasts (fst (handleInteractions M W st)) = lastProcessedCasts st
   \<and> filter is_sendCast (trace (fst (handleInteractions M W st))) = filter is_sendCast (trace st)
   \<and> (\<exists>ins. store (fst (handleInteractions M W st)) = store st @ ins \<and>
             (\<forall>m\<in>set ins. \<exists>c. m = inboundRecord M c))"
proof -
  have a: "\<forall>c. prepareReply (M\<lparr>farcasterConfig := c\<rparr>) W agent cast memory thread st =
              prepareReply M W agent cast memory thread st"
    by (simp add: prepareReply_config)
  have b: "\<forall>st1 mid ps rc.
         profile_fid (cast_profile cast) \<noteq> profile_fid agent \<longrightarrow>
         content_text (mem_content memory) \<noteq> [] \<longrightarrow>
         prepareReply M W agent cast memory thread st = (st1, Inr (mid, ps, rc)) \<longrightarrow>
           (\<exists>tr ctx. trace st1 = tr @ [Call_generateMessageResponse ctx] \<and>
                     generateMessageResponse W tr ctx = Inr rc) \<and>
           handleCast M W agent cast memory thread st =
             (if content_text rc = [] then st1
              else emit (Logger Info (Msg_dry_run (cast_hash cast) (content_text rc))) st1,
              Inr None)"
  proof (intro allI impI)
    fix st1 mid ps rc
    assume ns: "profile_fid (cast_profile cast) \<noteq> profile_fid agent"
      and nt: "content_text (mem_content memory) \<noteq> []"
      and p: "prepareReply M W agent cast memory thread st = (st1, Inr (mid, ps, rc))"
    have g: "\<exists>tr ctx. trace st1 = tr @ [Call_generateMessageResponse ctx] \<and>
                     generateMessageResponse W tr ctx = Inr rc"
      using prepareReply_ok[OF p] by simp
    have "handleCast M W agent cast memory thread st =
             (if content_text rc = [] then st1
              else emit (Logger Info (Msg_dry_run (cast_hash cast) (content_text rc))) st1,
              Inr None)"
      unfolding handleCast_prepared[OF ns nt p]
      by (cases "content_text rc = []") (simp_all add: respond_empty respond_dry[OF dry])
    with g show "(\<exists>tr ctx. trace st1 = tr @ [Call_generateMessageResponse ctx] \<and>
                     generateMessageResponse W tr ctx = Inr rc) \<and>
           handleCast M W agent cast memory thread st =
             (if content_text rc = [] then st1
              else emit (Logger Info (Msg_dry_run (cast_hash cast) (content_text rc))) st1,
              Inr None)" by simp
  qed
  obtain st' r where p: "processCandidate M W agent cast st = (st', r)"
    by (cases "processCandidate M W agent cast st")
  note c = processCandidate_dry_frame[OF dry p]
  obtain st'' r' where h: "handleInteractions M W st = (st'', r')"
    by (cases "handleInteractions M W st")
  note d = handleInteractions_dry_frame[OF dry h]
  show ?thesis using a b c d unfolding p h by simp
qed

theorem dry_run_containment_witness:
  "dry_run ex_dry_manager
   \<and> trace (fst (processCandidate ex_dry_manager ex_world ex_agent ex_cast ex_state)) =
       [Call_getMemoryById ''abc-agent'',
        Call_ensureConnection ''2'' ''0xabc-agent'' ''alice'' ''Alice'' ''farcaster'',
        Call_buildConversationThread ex_cast,
        Call_getTimeline 1 10,
        Call_composeState (candidateMemory ex_dry_manager ex_cast) ''agent'' [] ''hello agent''
          (formattedConversation ex_dry_manager [ex_cast]),
        Call_getMemoryById ''abc-agent'',
        Call_createMemory (inboundRecord ex_dry_manager ex_cast),
        Call_generateShouldRespond ''should respond? state'',
        Call_generateMessageResponse ''reply to: state'',
        Logger Info (Msg_dry_run ''abc'' ''hi Alice'')]
   \<and> store (fst (processCandidate ex_dry_manager ex_world ex_agent ex_cast ex_state)) =
       [inboundRecord ex_dry_manager ex_cast]
   \<and> lastProcessedCasts (fst (processCandidate ex_dry_manager ex_world ex_agent ex_cast ex_state)) = {}
   \<and> lastProcessedCasts (fst (handleInteractions ex_dry_manager ex_world ex_state)) = {}
   \<and> filter is_sendCast (trace (fst (handleInteractions ex_dry_manager ex_world ex_state))) = []"
proof -
  have dry: "dry_run ex_dry_manager"
    by (simp add: dry_run_def ex_dry_manager_def ex_manager_def ex_config_def)
  have t: "processCandidate ex_dry_manager ex_world ex_agent ex_cast ex_state =
     (ex_state\<lparr>store := [inboundRecord ex_dry_manager ex_cast],
        trace := [Call_getMemoryById ''abc-agent'',
        Call_ensureConnection ''2'' ''0xabc-agent'' ''alice'' ''Alice'' ''farcaster'',
        Call_buildConversationThread ex_cast,
        Call_getTimeline 1 10,
        Call_composeState (candidateMemory ex_dry_manager ex_cast) ''agent'' [] ''hello agent''
          (formattedConversation ex_dry_manager [ex_cast]),
        Call_getMemoryById ''abc-agent'',
        Call_createMemory (inboundRecord ex_dry_manager ex_cast),
        Call_generateShouldRespond ''should respond? state'',
        Call_generateMessageResponse ''reply to: state'',
        Logger Info (Msg_dry_run ''abc'' ''hi Alice'')]\<rparr>, Inr ())"
    by (simp add: processCandidate_def handleCast_def prepareReply_def respond_def dry_run_def
          getMemoryById_def createMemory_def createCastMemory_def inboundRecord_def candidateMemory_def
          template_of_def or_else_def nullish_else_def act_defs Let_def
          ex_dry_manager_def ex_manager_def ex_config_def ex_world_def ex_agent_def ex_alice_def
          ex_cast_def ex_reply_def ex_state_def)
  note inst = dry_run_containment[OF dry, of ex_world ex_agent ex_cast ex_memory "[]" ex_state]
  have "lastProcessedCasts (fst (handleInteractions ex_dry_manager ex_world ex_state)) = {}"
    "filter is_sendCast (trace (fst (handleInteractions ex_dry_manager ex_world ex_state))) = []"
    using inst by (simp_all add: ex_state_def)
  then show ?thesis using dry t by (simp add: ex_state_def)
qed

text \<open>
  Claim C6 as stated fails: with the flag set, a candidate reaches generation, the
  generation is called and answers an empty text, and \<open>handleCast\<close> returns at
  \<open>if (!responseContent.text) return\<close> before the dry-run branch: nothing is logged.
\<close>
theorem dry_run_log_counterexample:
  "dry_run ex_dry_manager
   \<and> trace (fst (processCandidate ex_dry_manager ex_silent_world ex_agent ex_cast ex_state)) =
       [Call_getMemoryById ''abc-agent'',
        Call_ensureConnection ''2'' ''0xabc-agent'' ''alice'' ''Alice'' ''farcaster'',
        Call_buildConversationThread ex_cast,
        Call_getTimeline 1 10,
        Call_composeState (candidateMemory ex_dry_manager ex_cast) ''agent'' [] ''hello agent''
          (formattedConversation ex_dry_manager [ex_cast]),
        Call_getMemoryById ''abc-agent'',
        Call_createMemory (inboundRecord ex_dry_manager ex_cast),
        Call_generateShouldRespond ''should respond? state'',
        Call_generateMessageResponse ''reply to: state'']
   \<and> (\<forall>h t. Logger Info (Msg_dry_run h t) \<notin>
          set (trace (fst (processCandidate ex_dry_manager ex_silent_world ex_agent ex_cast ex_state))))"
proof -
  have t: "trace (fst (processCandidate ex_dry_manager ex_silent_world ex_agent ex_cast ex_state)) =
       [Call_getMemoryById ''abc-agent'',
        Call_ensureConnection ''2'' ''0xabc-agent'' ''alice'' ''Alice'' ''farcaster'',
        Call_buildConversationThread ex_cast,
        Call_getTimeline 1 10,
        Call_composeState (candidateMemory ex_dry_manager ex_cast) ''agent'' [] ''hello agent''
          (formattedConversation ex_dry_manager [ex_cast]),
        Call_getMemoryById ''abc-agent'',
        Call_createMemory (inboundRecord ex_dry_manager ex_cast),
        Call_generateShouldRespond ''should respond? state'',
        Call_generateMessageResponse ''reply to: state'']"
    by (simp add: processCandidate_def handleCast_def prepareReply_def respond_def dry_run_def
          getMemoryById_def createMemory_def createCastMemory_def inboundRecord_def candidateMemory_def
          template_of_def or_else_def nullish_else_def act_defs Let_def
          ex_dry_manager_def ex_manager_def ex_config_def ex_silent_world_def ex_world_def
          ex_agent_def ex_alice_def ex_cast_def ex_reply_def ex_state_def)
  have dry: "dry_run ex_dry_manager"
    by (simp add: dry_run_def ex_dry_manager_def ex_manager_def ex_config_def)
  show ?thesis unfolding t using dry by simp
qed






subsection \<open>The dedup gate\<close>





lemma find_append_keep:
  "find P xs \<noteq> None \<Longrightarrow> find P (xs @ ys) \<noteq> None"
  by (induction xs) auto

text \<open>
  Claim C1, as amended. Let a candidate get as far as the dispatch, and let \<open>sendCast\<close>
  reject. The callback logs the error and returns \<open>[]\<close>; \<open>lastProcessedCasts\<close> is
  as it was before the candidate, and the store holds what it held after the inbound
  record was written: no outbound record. The inbound record is stored under
  \<open>castUuid(agentId, hash)\<close>, the id the gate looks up. So in any later round for the
  same post, in any world and on any store that extends this one, the gate finds the
  record and the round is the lookup alone: the post is not processed again.
\<close>
theorem failed_dispatch_not_retried:
  assumes ns: "profile_fid (cast_profile cast) \<noteq> profile_fid agent"
    and nt: "content_text (mem_content memory) \<noteq> []"
    and p: "prepareReply M W agent cast memory thread st = (st1, Inr (mid, ps, rc))"
    and filled: "content_text rc \<noteq> []"
    and nodry: "\<not> dry_run M"
    and send: "sendCast W (trace st1) (signerUuid M) (cast_profile cast)
                 (withInReplyTo mid (rc\<lparr>content_inReplyTo := Some mid\<rparr>))
                 (mem_roomId memory) (replyTarget cast) = Inl e"
    and st': "st' = fst (handleCast M W agent cast memory thread st)"
  shows "callback M W cast memory mid (rc\<lparr>content_inReplyTo := Some mid\<rparr>) st1 =
           (st1\<lparr>trace := trace st1 @
               [Call_sendCast (signerUuid M) (cast_profile cast)
                  (withInReplyTo mid (rc\<lparr>content_inReplyTo := Some mid\<rparr>))
                  (mem_roomId memory) (replyTarget cast),
                Logger Error (Msg_error_sending e)]\<rparr>, [])
   \<and> lastProcessedCasts st' = lastProcessedCasts st
   \<and> store st' = store st1
   \<and> (store st1 = store st \<or>
       store st1 = store st @ [createCastMemory M (mem_roomId memory)
          (stringToUuid M (numberToString M (cast_authorFid cast))) cast])
   \<and> find (\<lambda>m. mem_id m = Some (castUuid M (agentId M) (cast_hash cast))) (store st') \<noteq> None
   \<and> (\<forall>W' agent' st2 more. store st2 = store st' @ more \<longrightarrow>
         processCandidate M W' agent' cast st2 =
           (emit (Call_getMemoryById (castUuid M (agentId M) (cast_hash cast))) st2,
            void (getMemoryById_rejects W' (trace st2) (castUuid M (agentId M) (cast_hash cast)))))"
proof -
  let ?id = "castUuid M (agentId M) (cast_hash cast)"
  note cb = callback_rejected[OF send]
  obtain r where rs: "respond M W cast memory mid ps rc st1 = (st', r)"
    using st' unfolding handleCast_prepared[OF ns nt p]
    by (cases "respond M W cast memory mid ps rc st1") simp
  note live = respond_live[OF nodry filled cb rs]
  note f = prepareReply_frame[OF p]
  note ok = prepareReply_ok[OF p]
  have l: "lastProcessedCasts st' = lastProcessedCasts st" using live f by simp
  have s: "store st' = store st1" using live by simp
  have s1: "store st1 = store st \<or>
       store st1 = store st @ [createCastMemory M (mem_roomId memory)
          (stringToUuid M (numberToString M (cast_authorFid cast))) cast]"
    using f by simp
  have fnd: "find (\<lambda>m. mem_id m = Some ?id) (store st') \<noteq> None"
    unfolding s using ok by auto
  have gate: "\<forall>W' agent' st2 more. store st2 = store st' @ more \<longrightarrow>
         processCandidate M W' agent' cast st2 =
           (emit (Call_getMemoryById ?id) st2, void (getMemoryById_rejects W' (trace st2) ?id))"
  proof (intro allI impI)
    fix W' agent' and st2 :: State and more
    assume "store st2 = store st' @ more"
    then have "find (\<lambda>m. mem_id m = Some ?id) (store st2) \<noteq> None"
      using find_append_keep[OF fnd, of more] by simp
    then show "processCandidate M W' agent' cast st2 =
           (emit (Call_getMemoryById ?id) st2, void (getMemoryById_rejects W' (trace st2) ?id))"
      by (rule processCandidate_gate)
  qed
  show ?thesis
    apply (intro conjI)
         apply (rule cb)
        apply (rule l)
       apply (rule s)
      apply (rule s1)
     apply (rule fnd)
    apply (rule gate)
    done
qed


theorem failed_dispatch_not_retried_witness:
  "lastProcessedCasts (fst (handleCast ex_manager ex_offline_world ex_agent ex_cast ex_memory [ex_cast]
      ex_state)) = {}
   \<and> store (fst (handleCast ex_manager ex_offline_world ex_agent ex_cast ex_memory [ex_cast]
      ex_state)) = [inboundRecord ex_manager ex_cast]
   \<and> processCandidate ex_manager ex_world ex_agent ex_cast
        (fst (handleCast ex_manager ex_offline_world ex_agent ex_cast ex_memory [ex_cast] ex_state)) =
       (emit (Call_getMemoryById ''abc-agent'')
          (fst (handleCast ex_manager ex_offline_world ex_agent ex_cast ex_memory [ex_cast] ex_state)),
        Inr ())"
proof -
  let ?st1 = "ex_state\<lparr>store := [inboundRecord ex_manager ex_cast],
        trace := [Call_getTimeline 1 10,
          Call_composeState ex_memory ''agent'' [] ''hello agent''
            (formattedConversation ex_manager [ex_cast]),
          Call_getMemoryById ''abc-agent'',
          Call_createMemory (inboundRecord ex_manager ex_cast),
          Call_generateShouldRespond ''should respond? state'',
          Call_generateMessageResponse ''reply to: state'']\<rparr>"
  have ns: "profile_fid (cast_profile ex_cast) \<noteq> profile_fid ex_agent"
    by (simp add: ex_cast_def ex_alice_def ex_agent_def)
  have nt: "content_text (mem_content ex_memory) \<noteq> []" by (simp add: ex_memory_def)
  have p: "prepareReply ex_manager ex_offline_world ex_agent ex_cast ex_memory [ex_cast] ex_state =
             (?st1, Inr (''abc-agent'', ''state'', ex_reply))"
    by (simp add: prepareReply_def getMemoryById_def createMemory_def createCastMemory_def
          inboundRecord_def template_of_def or_else_def nullish_else_def act_defs Let_def
          ex_manager_def ex_config_def ex_offline_world_def ex_world_def ex_agent_def ex_alice_def
          ex_cast_def ex_memory_def ex_reply_def ex_state_def)
  have filled: "content_text ex_reply \<noteq> []" by (simp add: ex_reply_def)
  have nodry: "\<not> dry_run ex_manager" by (simp add: dry_run_def ex_manager_def ex_config_def)
  have send: "sendCast ex_offline_world (trace ?st1) (signerUuid ex_manager) (cast_profile ex_cast)
                 (withInReplyTo ''abc-agent'' (ex_reply\<lparr>content_inReplyTo := Some ''abc-agent''\<rparr>))
                 (mem_roomId ex_memory) (replyTarget ex_cast) = Inl (Rejected ''hub unreachable'')"
    by (simp add: ex_offline_world_def ex_world_def)
  have i: "castUuid ex_manager (agentId ex_manager) (cast_hash ex_cast) = ''abc-agent''"
    by (simp add: ex_manager_def ex_cast_def)
  note inst = failed_dispatch_not_retried[OF ns nt p filled nodry send refl, unfolded i]
  note l = inst[THEN conjunct2, THEN conjunct1]
  note s = inst[THEN conjunct2, THEN conjunct2, THEN conjunct1]
  note g = inst[THEN conjunct2, THEN conjunct2, THEN conjunct2, THEN conjunct2, THEN conjunct2,
      rule_format, of "fst (handleCast ex_manager ex_offline_world ex_agent ex_cast ex_memory [ex_cast]
      ex_state)" "[]" ex_world ex_agent]
  have v: "void (getMemoryById_rejects ex_world tr ''abc-agent'') = Inr ()" for tr
    by (simp add: void_def ex_world_def)
  show ?thesis
    apply (intro conjI)
      apply (subst l, simp add: ex_state_def)
     apply (simp add: s)
    apply (simp add: g v)
    done
qed

text \<open>
  Claim C1 as stated fails. In the first cycle the dispatch for the mentioned cast is
  rejected: the inbound record is the only record, and the processed set is empty. In the
  second cycle, in a world where the dispatch would succeed, the same mention is looked
  up at the gate and skipped; neither the classifier nor the generation nor the dispatch
  is called again.
\<close>
theorem retry_counterexample:
  "pollCycles ex_manager [ex_offline_world] ex_state =
     \<lparr>store = [inboundRecord ex_manager ex_cast], lastProcessedCasts = {},
      lastInteractionTimestamp = Some 100000000, timeout = Some 120000,
      trace =
        [Logger Log Msg_checking,
         Call_getMentions 1 10,
         Call_getProfile 1,
         Call_getMemoryById ''abc-agent'',
         Call_ensureConnection ''2'' ''0xabc-agent'' ''alice'' ''Alice'' ''farcaster'',
         Call_buildConversationThread ex_cast,
         Call_getTimeline 1 10,
         Call_composeState (candidateMemory ex_manager ex_cast) ''agent'' [] ''hello agent''
           (formattedConversation ex_manager [ex_cast]),
         Call_getMemoryById ''abc-agent'',
         Call_createMemory (inboundRecord ex_manager ex_cast),
         Call_generateShouldRespond ''should respond? state'',
         Call_generateMessageResponse ''reply to: state'',
         Call_sendCast ''signer'' ex_alice (ex_reply\<lparr>content_inReplyTo := Some ''abc-agent''\<rparr>)
           ''0xabc-agent'' (replyTarget ex_cast),
         Logger Error (Msg_error_sending (Rejected ''hub unreachable'')),
         Call_updateRecentMessageState ''state'',
         Call_processActions (candidateMemory ex_manager ex_cast) ex_cast [] ''state'',
         Logger Log (Msg_updated_timestamp 100000000),
         Call_setTimeout 120000]\<rparr>
   \<and> pollCycles ex_manager [ex_offline_world, ex_world] ex_state =
     \<lparr>store = [inboundRecord ex_manager ex_cast], lastProcessedCasts = {},
      lastInteractionTimestamp = Some 100000000, timeout = Some 120000,
      trace =
        [Logger Log Msg_checking,
         Call_getMentions 1 10,
         Call_getProfile 1,
         Call_getMemoryById ''abc-agent'',
         Call_ensureConnection ''2'' ''0xabc-agent'' ''alice'' ''Alice'' ''farcaster'',
         Call_buildConversationThread ex_cast,
         Call_getTimeline 1 10,
         Call_composeState (candidateMemory ex_manager ex_cast) ''agent'' [] ''hello agent''
           (formattedConversation ex_manager [ex_cast]),
         Call_getMemoryById ''abc-agent'',
         Call_createMemory (inboundRecord ex_manager ex_cast),
         Call_generateShouldRespond ''should respond? state'',
         Call_generateMessageResponse ''reply to: state'',
         Call_sendCast ''signer'' ex_alice (ex_reply\<lparr>content_inReplyTo := Some ''abc-agent''\<rparr>)
           ''0xabc-agent'' (replyTarget ex_cast),
         Logger Error (Msg_error_sending (Rejected ''hub unreachable'')),
         Call_updateRecentMessageState ''state'',
         Call_processActions (candidateMemory ex_manager ex_cast) ex_cast [] ''state'',
         Logger Log (Msg_updated_timestamp 100000000),
         Call_setTimeout 120000] @
        [Logger Log Msg_checking,
         Call_getMentions 1 10,
         Call_getProfile 1,
         Call_getMemoryById ''abc-agent'',
         Logger Log (Msg_updated_timestamp 100000000),
         Call_setTimeout 120000]\<rparr>"
proof -
  have c1: "handleInteractionsLoop ex_manager ex_offline_world ex_state =
     \<lparr>store = [inboundRecord ex_manager ex_cast], lastProcessedCasts = {},
      lastInteractionTimestamp = Some 100000000, timeout = Some 120000,
      trace =
        [Logger Log Msg_checking,
         Call_getMentions 1 10,
         Call_getProfile 1,
         Call_getMemoryById ''abc-agent'',
         Call_ensureConnection ''2'' ''0xabc-agent'' ''alice'' ''Alice'' ''farcaster'',
         Call_buildConversationThread ex_cast,
         Call_getTimeline 1 10,
         Call_composeState (candidateMemory ex_manager ex_cast) ''agent'' [] ''hello agent''
           (formattedConversation ex_manager [ex_cast]),
         Call_getMemoryById ''abc-agent'',
         Call_createMemory (inboundRecord ex_manager ex_cast),
         Call_generateShouldRespond ''should respond? state'',
         Call_generateMessageResponse ''reply to: state'',
         Call_sendCast ''signer'' ex_alice (ex_reply\<lparr>content_inReplyTo := Some ''abc-agent''\<rparr>)
           ''0xabc-agent'' (replyTarget ex_cast),
         Logger Error (Msg_error_sending (Rejected ''hub unreachable'')),
         Call_updateRecentMessageState ''state'',
         Call_processActions (candidateMemory ex_manager ex_cast) ex_cast [] ''state'',
         Logger Log (Msg_updated_timestamp 100000000),
         Call_setTimeout 120000]\<rparr>"
    by (simp add: handleInteractionsLoop_def handleInteractions_def gatherCandidates_def agentFid_of_def
        pollDelay_def processCandidate_def handleCast_def prepareReply_def respond_def dry_run_def
        callback_def callback_try_def restoreAction_def withInReplyTo_def truthy_def replyTarget_def
        getMemoryById_def createMemory_def createCastMemory_def inboundRecord_def candidateMemory_def
        template_of_def or_else_def nullish_else_def act_defs Let_def
        ex_manager_def ex_config_def ex_offline_world_def ex_world_def ex_agent_def ex_alice_def
        ex_cast_def ex_reply_def ex_sent_def ex_state_def)
  have c2: "handleInteractionsLoop ex_manager ex_world
     \<lparr>store = [inboundRecord ex_manager ex_cast], lastProcessedCasts = {},
      lastInteractionTimestamp = Some 100000000, timeout = Some 120000,
      trace =
        [Logger Log Msg_checking,
         Call_getMentions 1 10,
         Call_getProfile 1,
         Call_getMemoryById ''abc-agent'',
         Call_ensureConnection ''2'' ''0xabc-agent'' ''alice'' ''Alice'' ''farcaster'',
         Call_buildConversationThread ex_cast,
         Call_getTimeline 1 10,
         Call_composeState (candidateMemory ex_manager ex_cast) ''agent'' [] ''hello agent''
           (formattedConversation ex_manager [ex_cast]),
         Call_getMemoryById ''abc-agent'',
         Call_createMemory (inboundRecord ex_manager ex_cast),
         Call_generateShouldRespond ''should respond? state'',
         Call_generateMessageResponse ''reply to: state'',
         Call_sendCast ''signer'' ex_alice (ex_reply\<lparr>content_inReplyTo := Some ''abc-agent''\<rparr>)
           ''0xabc-agent'' (replyTarget ex_cast),
         Logger Error (Msg_error_sending (Rejected ''hub unreachable'')),
         Call_updateRecentMessageState ''state'',
         Call_processActions (candidateMemory ex_manager ex_cast) ex_cast [] ''state'',
         Logger Log (Msg_updated_timestamp 100000000),
         Call_setTimeout 120000]\<rparr> =
     \<lparr>store = [inboundRecord ex_manager ex_cast], lastProcessedCasts = {},
      lastInteractionTimestamp = Some 100000000, timeout = Some 120000,
      trace =
        [Logger Log Msg_checking,
         Call_getMentions 1 10,
         Call_getProfile 1,
         Call_getMemoryById ''abc-agent'',
         Call_ensureConnection ''2'' ''0xabc-agent'' ''alice'' ''Alice'' ''farcaster'',
         Call_buildConversationThread ex_cast,
         Call_getTimeline 1 10,
         Call_composeState (candidateMemory ex_manager ex_cast) ''agent'' [] ''hello agent''
           (formattedConversation ex_manager [ex_cast]),
         Call_getMemoryById ''abc-agent'',
         Call_createMemory (inboundRecord ex_manager ex_cast),
         Call_generateShouldRespond ''should respond? state'',
         Call_generateMessageResponse ''reply to: state'',
         Call_sendCast ''signer'' ex_alice (ex_reply\<lparr>content_inReplyTo := Some ''abc-agent''\<rparr>)
           ''0xabc-agent'' (replyTarget ex_cast),
         Logger Error (Msg_error_sending (Rejected ''hub unreachable'')),
         Call_updateRecentMessageState ''state'',
         Call_processActions (candidateMemory ex_manager ex_cast) ex_cast [] ''state'',
         Logger Log (Msg_updated_timestamp 100000000),
         Call_setTimeout 120000] @
        [Logger Log Msg_checking,
         Call_getMentions 1 10,
         Call_getProfile 1,
         Call_getMemoryById ''abc-agent'',
         Logger Log (Msg_updated_timestamp 100000000),
         Call_setTimeout 120000]\<rparr>"
    by (simp add: handleInteractionsLoop_def handleInteractions_def gatherCandidates_def agentFid_of_def
        pollDelay_def processCandidate_def handleCast_def prepareReply_def respond_def dry_run_def
        callback_def callback_try_def restoreAction_def withInReplyTo_def truthy_def replyTarget_def
        getMemoryById_def createMemory_def createCastMemory_def inboundRecord_def candidateMemory_def
        template_of_def or_else_def nullish_else_def act_defs Let_def
        ex_manager_def ex_config_def ex_offline_world_def ex_world_def ex_agent_def ex_alice_def
        ex_cast_def ex_reply_def ex_sent_def ex_state_def)
  show ?thesis by (simp add: c1 c2)
qed

end
